theory Spec2Isabelle
  imports Complex_Main
begin

section \<open>The lip-sync engine: data model\<close>

text \<open>
  The engine (\<^verbatim>\<open>useLipSyncEngine\<close>) turns text or an uploaded file into an audio clip, plays
  it, and reports one excitation value per animation frame. JavaScript numbers are modelled
  as \<^typ>\<open>real\<close>: the formulas are the source's, evaluated exactly (NaN and the infinities are
  not represented; the \<^verbatim>\<open>Float32Array\<close> of a buffer holds reals). Rounding to the nearest
  double is written out in one place, the frame count of the transformer, where a rounded
  quotient is floored (\<open>binary64\<close> below). Quantities the source keeps integral (sample
  counts, the write cursor, animation-frame handles) are \<^typ>\<open>nat\<close> or \<^typ>\<open>int\<close>.

  A JavaScript string is a list of UTF-16 code units.
\<close>

type_synonym jschar = nat
type_synonym jsstring = "jschar list"

definition utf16 :: "string \<Rightarrow> jsstring" where
  "utf16 s = map of_char s"

text \<open>
  \<^verbatim>\<open>EmotionPreset\<close>: the five numeric fields the engine reads. The preset's identifier, label,
  description and accent colour are read by no function here.
\<close>

record emotion =
  tempoMultiplier :: real
  pitchShift :: real
  gestureIntensity :: real
  mouthIntensity :: real
  browLift :: real

record audio_buffer =
  numberOfChannels :: nat
  bufLength :: nat
  sampleRate :: real
  channelData :: "real list list"

text \<open>\<^verbatim>\<open>LipSyncClip\<close>\<close>

record clip =
  buffer :: audio_buffer
  duration :: real

text \<open>
  An \<^verbatim>\<open>AudioContext\<close>, as far as the engine reads it. The source guards the sample rate with
  \<^verbatim>\<open>context.sampleRate ?? 44100\<close>, so the attribute is optional here.
\<close>

record audio_context =
  ctxSampleRate :: "real option"

datatype error =
  WebAudioUnsupported
  | NotSupportedError
  | EncodingError
  | InvalidStateError

text \<open>
  The offline render graph \<^verbatim>\<open>transformBufferWithEmotion\<close> builds: the
  \<^verbatim>\<open>OfflineAudioContext\<close>'s three arguments, the source node, the tone filter and the gain.
\<close>

datatype filter_type = Highshelf | Lowshelf

record render_graph =
  gChannels :: nat
  gLength :: nat
  gSampleRate :: real
  gSource :: audio_buffer
  gPlaybackRate :: real
  gGain :: real
  gFilterType :: filter_type
  gFilterFrequency :: real
  gFilterGain :: real

text \<open>
  What the host (browser) supplies. \<open>toLowerCase\<close> is \<^verbatim>\<open>String.prototype.toLowerCase\<close>;
  \<open>mathRandom k\<close> is the value of the \<open>k\<close>-th call of \<^verbatim>\<open>Math.random()\<close>;
  \<open>hasWindow\<close> is \<^verbatim>\<open>typeof window !== "undefined"\<close>; \<open>audioCtor\<close> is the context that
  \<^verbatim>\<open>new (window.AudioContext ?? window.webkitAudioContext)\<close> constructs, \<open>None\<close> when neither
  constructor exists; \<open>decodeAudioData\<close> resolves to the decoded buffer or rejects;
  \<open>resume\<close> is the outcome of \<^verbatim>\<open>context.resume()\<close>; \<open>renderSamples\<close> is the signal
  processing of \<^verbatim>\<open>offline.startRendering()\<close>.
\<close>

record host =
  toLowerCase :: "jsstring \<Rightarrow> jsstring"
  mathRandom :: "nat \<Rightarrow> real"
  hasWindow :: bool
  audioCtor :: "audio_context option"
  decodeAudioData :: "nat list \<Rightarrow> error + audio_buffer"
  resume :: "error option"
  renderSamples :: "render_graph \<Rightarrow> real list list"

section \<open>String operations of the synthesizer\<close>

text \<open>
  The characters \<^verbatim>\<open>\s\<close> matches and \<^verbatim>\<open>trim()\<close> strips: ECMAScript's WhiteSpace and
  LineTerminator code points.
\<close>

definition isWhiteSpace :: "jschar \<Rightarrow> bool" where
  "isWhiteSpace c =
     (c = 9 \<or> c = 10 \<or> c = 11 \<or> c = 12 \<or> c = 13 \<or> c = 32 \<or> c = 160 \<or> c = 5760 \<or>
      (8192 \<le> c \<and> c \<le> 8202) \<or> c = 8232 \<or> c = 8233 \<or> c = 8239 \<or> c = 8287 \<or>
      c = 12288 \<or> c = 65279)"

text \<open>\<^verbatim>\<open>text.replace(/\s+/g, " ")\<close>: every maximal run of whitespace becomes one space.\<close>

function collapseWhitespace :: "jsstring \<Rightarrow> jsstring" where
  "collapseWhitespace [] = []"
| "collapseWhitespace (c # cs) =
     (if isWhiteSpace c then 32 # collapseWhitespace (dropWhile isWhiteSpace cs)
      else c # collapseWhitespace cs)"
  by pat_completeness auto
termination
  by (relation "measure length") (auto simp: le_imp_less_Suc length_dropWhile_le)

definition trim :: "jsstring \<Rightarrow> jsstring" where
  "trim s = rev (dropWhile isWhiteSpace (rev (dropWhile isWhiteSpace s)))"

text \<open>\<^verbatim>\<open>content.split(" ")\<close>, for any one-unit separator.\<close>

fun splitOn :: "jschar \<Rightarrow> jsstring \<Rightarrow> jsstring list" where
  "splitOn sep [] = [[]]"
| "splitOn sep (c # cs) =
     (if c = sep then [] # splitOn sep cs
      else (case splitOn sep cs of w # ws \<Rightarrow> (c # w) # ws | [] \<Rightarrow> [[c]]))"

text \<open>
  \<^verbatim>\<open>for (const char of word)\<close> iterates by code point: a high surrogate followed by a low
  surrogate is one \<^verbatim>\<open>char\<close> of two code units.
\<close>

fun codePoints :: "jsstring \<Rightarrow> jsstring list" where
  "codePoints [] = []"
| "codePoints [c] = [[c]]"
| "codePoints (c # d # cs) =
     (if 55296 \<le> c \<and> c \<le> 56319 \<and> 56320 \<le> d \<and> d \<le> 57343 then [c, d] # codePoints cs
      else [c] # codePoints (d # cs))"

text \<open>The lower-casing of an ASCII host, for evaluating the synthesizer on ASCII text.\<close>

definition asciiLower :: "jsstring \<Rightarrow> jsstring" where
  "asciiLower s = map (\<lambda>c. if 65 \<le> c \<and> c \<le> 90 then c + 32 else c) s"

section \<open>SpeechSynthesizer: \<^verbatim>\<open>synthesiseText\<close>\<close>

definition BASE_CHAR_DURATION :: real where
  "BASE_CHAR_DURATION = 0.14"

definition SILENCE_PADDING :: real where
  "SILENCE_PADDING = 0.28"

definition CONSONANT_TEXTURE :: real where
  "CONSONANT_TEXTURE = 0.23"

text \<open>The table \<^verbatim>\<open>VOWEL_FREQ\<close>, keyed by one-character strings.\<close>

definition VOWEL_FREQ :: "jsstring \<rightharpoonup> real" where
  "VOWEL_FREQ =
     [[97] \<mapsto> 210, [101] \<mapsto> 230, [105] \<mapsto> 260, [111] \<mapsto> 190, [117] \<mapsto> 170, [121] \<mapsto> 240]"

definition clamp :: "real \<Rightarrow> real \<Rightarrow> real \<Rightarrow> real" where
  "clamp v mn mx = min mx (max mn v)"

definition computeEnvelope :: "real \<Rightarrow> real \<Rightarrow> real" where
  "computeEnvelope index totalN =
     (let attack = min 0.25 (4 / totalN);
          release = attack;
          pos = index / totalN
      in if pos < attack then pos / attack
         else if pos > 1 - release then (1 - pos) / release
         else 1)"

text \<open>
  \<^verbatim>\<open>context.createBuffer(channels, length, sampleRate)\<close>: a zero-filled buffer; the Web Audio
  constructor raises \<^verbatim>\<open>NotSupportedError\<close> for no channels, no frames or a sample rate
  that is not positive.
\<close>

definition createBuffer :: "nat \<Rightarrow> int \<Rightarrow> real \<Rightarrow> error + audio_buffer" where
  "createBuffer channels len rate =
     (if channels = 0 \<or> len \<le> 0 \<or> rate \<le> 0 then Inl NotSupportedError
      else Inr \<lparr>numberOfChannels = channels, bufLength = nat len, sampleRate = rate,
                channelData = replicate channels (replicate (nat len) 0)\<rparr>)"

text \<open>The values \<^verbatim>\<open>synthesiseText\<close> computes once, before its loops.\<close>

record synth =
  sRate :: real
  totalSamples :: nat
  charDuration :: real
  vibratoSpeed :: real
  vibratoDepth :: real
  brightness :: real
  consonantNoise :: real

text \<open>
  Per character: \<^verbatim>\<open>lower\<close> is the lower-cased character, a non-empty string, so
  \<^verbatim>\<open>lower.charCodeAt(0)\<close> is its first code unit (the empty string, where JavaScript
  yields NaN, does not occur and is left unspecified).
\<close>

fun charCodeAt0 :: "jsstring \<Rightarrow> nat" where
  "charCodeAt0 (c # cs) = c"

definition isVowel :: "jsstring \<Rightarrow> bool" where
  "isVowel lower = (lower \<in> dom VOWEL_FREQ)"

definition baseFreq :: "jsstring \<Rightarrow> real" where
  "baseFreq lower =
     (case VOWEL_FREQ lower of
        Some f \<Rightarrow> f
      | None \<Rightarrow> 140 + real (charCodeAt0 lower mod 25) * 4)"

definition charFreq :: "emotion \<Rightarrow> jsstring \<Rightarrow> real" where
  "charFreq emotion lower =
     baseFreq lower * 2 powr (pitchShift emotion / 12) * (if isVowel lower then 1 else 0.92)"

definition charAmplitude :: "emotion \<Rightarrow> jsstring \<Rightarrow> real" where
  "charAmplitude emotion lower =
     clamp (if isVowel lower then 0.6 + mouthIntensity emotion * 0.35
            else 0.35 + mouthIntensity emotion * 0.2) 0.05 0.98"

definition charSamplesOf :: "synth \<Rightarrow> nat" where
  "charSamplesOf K = nat \<lfloor>charDuration K * sRate K\<rfloor>"

definition wordGapOf :: "synth \<Rightarrow> nat" where
  "wordGapOf K = nat \<lfloor>charDuration K * sRate K * 0.6\<rfloor>"

text \<open>
  The body of the innermost loop: the sample added at position \<open>cursor + i\<close>, with \<open>r\<close> the
  value \<^verbatim>\<open>Math.random()\<close> returns there.
\<close>

definition sampleValue :: "synth \<Rightarrow> bool \<Rightarrow> real \<Rightarrow> real \<Rightarrow> nat \<Rightarrow> nat \<Rightarrow> nat \<Rightarrow> real \<Rightarrow> real" where
  "sampleValue K vowel freq amplitude charSamples cursor i r =
     (let env = computeEnvelope (real i) (real charSamples);
          t = real (cursor + i) / sRate K;
          vibrato = sin (t * pi * 2 * vibratoSpeed K) * vibratoDepth K;
          voice = sin (pi * 2 * (freq + vibrato) * t) * amplitude * env;
          breath = (if \<not> vowel then (r * 2 - 1) * consonantNoise K * env
                    else (r * 2 - 1) * 0.02 * env);
          brightnessTilt = (if vowel then sin (pi * 2 * freq * t * 0.5) * brightness K * 0.25
                            else 0)
      in clamp (voice + breath + brightnessTilt) (- 1) 1)"

text \<open>
  \<^verbatim>\<open>for (let i = 0; i < charSamples && cursor + i < totalSamples; i++)\<close>. The state is the
  output array and the number of random draws so far.
\<close>

function sampleLoop ::
  "host \<Rightarrow> synth \<Rightarrow> bool \<Rightarrow> real \<Rightarrow> real \<Rightarrow> nat \<Rightarrow> nat \<Rightarrow> nat \<Rightarrow> real list \<times> nat \<Rightarrow> real list \<times> nat" where
  "sampleLoop H K vowel freq amplitude charSamples cursor i (output, k) =
     (if i < charSamples \<and> cursor + i < totalSamples K then
        sampleLoop H K vowel freq amplitude charSamples cursor (i + 1)
          (output[cursor + i := output ! (cursor + i) +
                     sampleValue K vowel freq amplitude charSamples cursor i (mathRandom H k)],
           k + 1)
      else (output, k))"
  by pat_completeness auto
termination
  by (relation "measure (\<lambda>(H, K, vowel, freq, amplitude, charSamples, cursor, i, st). charSamples - i)")
     auto

declare sampleLoop.simps [simp del]

text \<open>\<^verbatim>\<open>for (const char of word)\<close>: the state adds the write cursor.\<close>

fun charLoop ::
  "host \<Rightarrow> synth \<Rightarrow> emotion \<Rightarrow> jsstring list \<Rightarrow> real list \<times> nat \<times> nat \<Rightarrow> real list \<times> nat \<times> nat" where
  "charLoop H K emotion [] st = st"
| "charLoop H K emotion (char # chars) (output, cursor, k) =
     (let lower = toLowerCase H char;
          freq = charFreq emotion lower;
          amplitude = charAmplitude emotion lower;
          charSamples = charSamplesOf K;
          (output', k') =
             sampleLoop H K (isVowel lower) freq amplitude charSamples cursor 0 (output, k)
      in charLoop H K emotion chars (output', cursor + charSamples, k'))"

text \<open>\<^verbatim>\<open>for (const word of words)\<close>\<close>

fun wordLoop ::
  "host \<Rightarrow> synth \<Rightarrow> emotion \<Rightarrow> jsstring list \<Rightarrow> real list \<times> nat \<times> nat \<Rightarrow> real list \<times> nat \<times> nat" where
  "wordLoop H K emotion [] st = st"
| "wordLoop H K emotion (word # words) st =
     (let (output, cursor, k) = charLoop H K emotion (codePoints word) st
      in wordLoop H K emotion words (output, cursor + wordGapOf K, k))"

definition synthConsts :: "emotion \<Rightarrow> real \<Rightarrow> nat \<Rightarrow> synth" where
  "synthConsts emotion rate totalN =
     \<lparr>sRate = rate,
      totalSamples = totalN,
      charDuration = BASE_CHAR_DURATION / clamp (tempoMultiplier emotion) 0.65 1.45,
      vibratoSpeed = 6 + \<bar>pitchShift emotion\<bar> * 0.8,
      vibratoDepth = 4 + \<bar>pitchShift emotion\<bar> * 0.4,
      brightness = clamp (0.55 + browLift emotion * 0.2) 0.1 1.2,
      consonantNoise = clamp (CONSONANT_TEXTURE + gestureIntensity emotion * 0.15) 0.12 0.45\<rparr>"

definition synthesiseText :: "host \<Rightarrow> audio_context \<Rightarrow> jsstring \<Rightarrow> emotion \<Rightarrow> error + clip option" where
  "synthesiseText H context text emotion =
     (let content = trim (collapseWhitespace text) in
      if content = [] then Inr None
      else
        let words = splitOn 32 content;
            totalChars = length content;
            tempo = clamp (tempoMultiplier emotion) 0.65 1.45;
            charDur = BASE_CHAR_DURATION / tempo;
            totalDuration = real totalChars * charDur + SILENCE_PADDING;
            rate = (case ctxSampleRate context of Some r \<Rightarrow> r | None \<Rightarrow> 44100);
            totalN = \<lceil>totalDuration * rate\<rceil>
        in case createBuffer 1 totalN rate of
             Inl e \<Rightarrow> Inl e
           | Inr buf \<Rightarrow>
               let K = synthConsts emotion rate (nat totalN);
                   (output, cursor, k) =
                      wordLoop H K emotion words (channelData buf ! 0, 0, 0)
               in Inr (Some \<lparr>buffer = buf\<lparr>channelData := [output]\<rparr>,
                              duration = totalDuration\<rparr>))"

text \<open>The default profile of the specification's scenario, and an ASCII host.\<close>

definition defaultProfile :: emotion where
  "defaultProfile =
     \<lparr>tempoMultiplier = 1, pitchShift = 0, gestureIntensity = 1, mouthIntensity = 1,
      browLift = 0\<rparr>"

definition asciiHost :: host where
  "asciiHost =
     \<lparr>toLowerCase = asciiLower, mathRandom = (\<lambda>k. 1 / 2), hasWindow = True,
      audioCtor = Some \<lparr>ctxSampleRate = Some 44100\<rparr>,
      decodeAudioData = (\<lambda>bytes. Inl EncodingError), resume = None,
      renderSamples = (\<lambda>g. replicate (gChannels g) (replicate (gLength g) 0))\<rparr>"

section \<open>Derived profiles: \<^verbatim>\<open>createVariantEmotion\<close>\<close>

text \<open>
  \<^verbatim>\<open>jitter = () => 0.92 + Math.random() * 0.16\<close>. The constructor draws five random
  numbers, in the order tempo, pitch, gesture, mouth, brow; the spread \<^verbatim>\<open>...preset\<close> keeps
  every other field.
\<close>

definition jitter :: "real \<Rightarrow> real" where
  "jitter r = 0.92 + r * 0.16"

definition createVariantEmotion :: "host \<Rightarrow> emotion \<Rightarrow> emotion" where
  "createVariantEmotion H preset =
     (let tempo = clamp (tempoMultiplier preset * jitter (mathRandom H 0)) 0.65 1.45;
          pitch = clamp (pitchShift preset + (mathRandom H 1 - 0.5) * 1.6) (- 6) 6;
          gesture = clamp (gestureIntensity preset * jitter (mathRandom H 2)) 0.35 1.4;
          mouth = clamp (mouthIntensity preset * jitter (mathRandom H 3)) 0.4 1.4;
          brow = clamp (browLift preset + (mathRandom H 4 - 0.5) * 0.4) (- 0.6) 1.2
      in preset\<lparr>tempoMultiplier := tempo, pitchShift := pitch, gestureIntensity := gesture,
                 mouthIntensity := mouth, browLift := brow\<rparr>)"

section \<open>Rounding to binary64\<close>

text \<open>
  \<open>binary64 x\<close> is the double nearest to \<open>x\<close>, ties to even: with \<open>2 ^ e \<le> |x| < 2 ^ (e + 1)\<close>
  the doubles around \<open>x\<close> are the multiples of \<open>2 ^ (e - 52)\<close>. This is IEEE 754 rounding
  for the normal range, which is where the transformer's quotient lies; subnormal numbers and
  overflow are not modelled.
\<close>

definition roundEven :: "real \<Rightarrow> int" where
  "roundEven y =
     (let f = \<lfloor>y\<rfloor>; d = y - of_int f
      in if d < 1 / 2 then f else if d > 1 / 2 then f + 1 else if even f then f else f + 1)"

definition binary64 :: "real \<Rightarrow> real" where
  "binary64 x =
     (if x = 0 then 0
      else let e = \<lfloor>log 2 \<bar>x\<bar>\<rfloor>; ulp = 2 powr (of_int e - 52)
           in of_int (roundEven (x / ulp)) * ulp)"

section \<open>AudioTransformer: \<^verbatim>\<open>transformBufferWithEmotion\<close>\<close>

text \<open>
  The graph built on \<^verbatim>\<open>new OfflineAudioContext(channels, length, sampleRate)\<close>; the
  constructor raises \<^verbatim>\<open>NotSupportedError\<close> for no channels, no frames or a sample rate that
  is not positive. The length is computed as the code computes it: the literals
  \<^verbatim>\<open>0.65\<close> and \<^verbatim>\<open>1.45\<close> are the doubles nearest to them, and
  \<^verbatim>\<open>decoded.length / tempo\<close> is rounded to a double before \<^verbatim>\<open>Math.floor\<close> (the floor of
  the rounded quotient is not always the floor of the exact one).
\<close>

definition buildGraph :: "audio_buffer \<Rightarrow> emotion \<Rightarrow> error + render_graph" where
  "buildGraph decoded emotion =
     (let pitchRatio = 2 powr (pitchShift emotion / 12);
          tempo = clamp (tempoMultiplier emotion) (binary64 0.65) (binary64 1.45);
          len = \<lfloor>binary64 (real (bufLength decoded) / tempo)\<rfloor>
      in if numberOfChannels decoded = 0 \<or> len \<le> 0 \<or> sampleRate decoded \<le> 0
         then Inl NotSupportedError
         else Inr \<lparr>gChannels = numberOfChannels decoded,
                   gLength = nat len,
                   gSampleRate = sampleRate decoded,
                   gSource = decoded,
                   gPlaybackRate = pitchRatio / tempo,
                   gGain = clamp (1 + gestureIntensity emotion * 0.1) 0.5 1.4,
                   gFilterType = (if browLift emotion \<ge> 0 then Highshelf else Lowshelf),
                   gFilterFrequency = (if browLift emotion \<ge> 0 then 2800 else 180),
                   gFilterGain = browLift emotion * 18\<rparr>)"

text \<open>
  \<^verbatim>\<open>offline.startRendering()\<close> resolves to a buffer of the offline context's channel count,
  length and sample rate; its samples are the host's.
\<close>

definition startRendering :: "host \<Rightarrow> render_graph \<Rightarrow> audio_buffer" where
  "startRendering H g =
     \<lparr>numberOfChannels = gChannels g, bufLength = gLength g, sampleRate = gSampleRate g,
      channelData = renderSamples H g\<rparr>"

text \<open>The file is its bytes; a rejected \<^verbatim>\<open>decodeAudioData\<close> rejects the whole call.\<close>

definition transformBufferWithEmotion :: "host \<Rightarrow> nat list \<Rightarrow> emotion \<Rightarrow> error + clip option" where
  "transformBufferWithEmotion H file emotion =
     (case decodeAudioData H file of
        Inl e \<Rightarrow> Inl e
      | Inr decoded \<Rightarrow>
          (case buildGraph decoded emotion of
             Inl e \<Rightarrow> Inl e
           | Inr g \<Rightarrow>
               let rendered = startRendering H g
               in Inr (Some \<lparr>buffer = rendered,
                              duration = real (bufLength rendered) / sampleRate rendered\<rparr>)))"

section \<open>AmplitudeExtractor and PlaybackSession: \<^verbatim>\<open>useLipSyncEngine\<close>\<close>

record analyser_node =
  fftSize :: nat
  smoothingTimeConstant :: real

definition frequencyBinCount :: "analyser_node \<Rightarrow> nat" where
  "frequencyBinCount a = fftSize a div 2"

text \<open>
  The hook's refs and state, and what the host holds for it: \<open>frameQueue\<close> is the list of
  pending animation-frame callbacks (each is \<^verbatim>\<open>tick\<close>, with the \<^verbatim>\<open>bufferLength\<close> it
  captured), \<open>lastHandle\<close> the last handle \<^verbatim>\<open>requestAnimationFrame\<close> returned (handles are
  positive), \<open>amplitudeLog\<close> the arguments of the calls of \<^verbatim>\<open>onAmplitude\<close> so far, in order,
  and \<open>endedCalls\<close> the number of calls of \<^verbatim>\<open>onEnded\<close>. The source node in \<open>sourceRef\<close> is
  identified with the buffer it plays. The media-stream destination is not modelled.

  The functions \<open>playClip\<close>, \<open>speakText\<close>, \<open>playFile\<close> and \<open>replay\<close> below are the calls
  run from start to end with nothing interleaved. The source suspends them at each
  \<^verbatim>\<open>await\<close>; the segments between the awaits, and the events that can run while a call is
  suspended, follow them.
\<close>

record engine =
  audioRef :: "audio_context option"
  analyserRef :: "analyser_node option"
  gainRef :: "real option"
  sourceRef :: "audio_buffer option"
  rafRef :: nat
  lastClipRef :: "clip option"
  isBusy :: bool
  frameQueue :: "(nat \<times> nat) list"
  lastHandle :: nat
  amplitudeLog :: "real list"
  endedCalls :: nat

definition initialEngine :: engine where
  "initialEngine =
     \<lparr>audioRef = None, analyserRef = None, gainRef = None, sourceRef = None, rafRef = 0,
      lastClipRef = None, isBusy = False, frameQueue = [], lastHandle = 0, amplitudeLog = [],
      endedCalls = 0\<rparr>"

definition ensureContext :: "host \<Rightarrow> engine \<Rightarrow> (error + audio_context option) \<times> engine" where
  "ensureContext H s =
     (if \<not> hasWindow H then (Inr None, s)
      else case audioRef s of
             Some c \<Rightarrow> (Inr (Some c), s)
           | None \<Rightarrow>
               (case audioCtor H of
                  None \<Rightarrow> (Inl WebAudioUnsupported, s)
                | Some c \<Rightarrow>
                    (Inr (Some c),
                     s\<lparr>audioRef := Some c, gainRef := Some 0.95,
                       analyserRef := Some \<lparr>fftSize = 1024, smoothingTimeConstant = 0.85\<rparr>\<rparr>)))"

definition requestAnimationFrame :: "nat \<Rightarrow> engine \<Rightarrow> nat \<times> engine" where
  "requestAnimationFrame bufferLength s =
     (let h = lastHandle s + 1
      in (h, s\<lparr>lastHandle := h, frameQueue := frameQueue s @ [(h, bufferLength)]\<rparr>))"

definition cancelAnimationFrame :: "nat \<Rightarrow> engine \<Rightarrow> engine" where
  "cancelAnimationFrame h s = s\<lparr>frameQueue := filter (\<lambda>(h', n). h' \<noteq> h) (frameQueue s)\<rparr>"

definition onAmplitude :: "real \<Rightarrow> engine \<Rightarrow> engine" where
  "onAmplitude v s = s\<lparr>amplitudeLog := amplitudeLog s @ [v]\<rparr>"

definition cancelAnalyser :: "engine \<Rightarrow> engine" where
  "cancelAnalyser s =
     (if rafRef s \<noteq> 0 then (cancelAnimationFrame (rafRef s) s)\<lparr>rafRef := 0\<rparr> else s)"

definition stop :: "engine \<Rightarrow> engine" where
  "stop s =
     (let s1 = cancelAnalyser s;
          s2 = onAmplitude 0 s1
      in case sourceRef s2 of
           None \<Rightarrow> s2
         | Some source \<Rightarrow> s2\<lparr>sourceRef := None\<rparr>)"

text \<open>
  The loop of \<^verbatim>\<open>tick\<close>: \<open>sumSquares data n\<close> is \<^verbatim>\<open>sum\<close> after \<open>n\<close> iterations, \<open>data i\<close>
  being \<^verbatim>\<open>dataArray[i]\<close> as \<^verbatim>\<open>getFloatTimeDomainData\<close> filled it.
\<close>

primrec sumSquares :: "(nat \<Rightarrow> real) \<Rightarrow> nat \<Rightarrow> real" where
  "sumSquares data 0 = 0"
| "sumSquares data (Suc i) = sumSquares data i + data i * data i"

definition tick :: "nat \<Rightarrow> (nat \<Rightarrow> real) \<Rightarrow> engine \<Rightarrow> engine" where
  "tick bufferLength data s =
     (let sum = sumSquares data bufferLength;
          rms = sqrt (sum / real bufferLength);
          mapped = clamp ((rms * 4.2) powr 1.2) 0 1;
          s1 = onAmplitude mapped s;
          (h, s2) = requestAnimationFrame bufferLength s1
      in s2\<lparr>rafRef := h\<rparr>)"

text \<open>The host runs the oldest pending frame callback, on the window \<open>data\<close>.\<close>

definition animationFrame :: "(nat \<Rightarrow> real) \<Rightarrow> engine \<Rightarrow> engine" where
  "animationFrame data s =
     (case frameQueue s of
        [] \<Rightarrow> s
      | (h, bufferLength) # rest \<Rightarrow> tick bufferLength data (s\<lparr>frameQueue := rest\<rparr>))"

definition startAnalyserLoop :: "engine \<Rightarrow> engine" where
  "startAnalyserLoop s =
     (case analyserRef s of
        None \<Rightarrow> s
      | Some analyser \<Rightarrow>
          let bufferLength = frequencyBinCount analyser;
              s1 = cancelAnalyser s;
              (h, s2) = requestAnimationFrame bufferLength s1
          in s2\<lparr>rafRef := h\<rparr>)"

text \<open>\<^verbatim>\<open>source.onended\<close>, as \<^verbatim>\<open>playClip\<close> sets it.\<close>

definition onended :: "engine \<Rightarrow> engine" where
  "onended s =
     (let s1 = cancelAnalyser s;
          s2 = onAmplitude 0 s1
      in s2\<lparr>endedCalls := endedCalls s2 + 1\<rparr>)"

definition playClip :: "host \<Rightarrow> clip option \<Rightarrow> engine \<Rightarrow> (error + clip option) \<times> engine" where
  "playClip H clipArg s =
     (case clipArg of
        None \<Rightarrow> (Inr None, s)
      | Some c \<Rightarrow>
          (case ensureContext H s of
             (Inl e, s1) \<Rightarrow> (Inl e, s1)
           | (Inr None, s1) \<Rightarrow> (Inr None, s1)
           | (Inr (Some context), s1) \<Rightarrow>
               if gainRef s1 = None then (Inr None, s1)
               else
                 let s2 = stop s1
                 in case resume H of
                      Some e \<Rightarrow> (Inl e, s2)
                    | None \<Rightarrow>
                        let s3 = s2\<lparr>sourceRef := Some (buffer c)\<rparr>;
                            s4 = startAnalyserLoop s3
                        in (Inr (Some c), s4\<lparr>lastClipRef := Some c\<rparr>)))"

text \<open>
  \<^verbatim>\<open>try { clip = ...; await playClip(clip); return clip } finally { setIsBusy(false) }\<close>:
  \<open>guarded\<close> is the \<^verbatim>\<open>try\<close> block, given the clip or the error of its first statement.
\<close>

definition guarded :: "host \<Rightarrow> error + clip option \<Rightarrow> engine \<Rightarrow> (error + clip option) \<times> engine" where
  "guarded H made s =
     (case made of
        Inl e \<Rightarrow> (Inl e, s)
      | Inr c \<Rightarrow>
          (case playClip H c s of
             (Inl e, s') \<Rightarrow> (Inl e, s')
           | (Inr played, s') \<Rightarrow> (Inr c, s')))"

definition speakText :: "host \<Rightarrow> jsstring \<Rightarrow> emotion \<Rightarrow> engine \<Rightarrow> (error + clip option) \<times> engine" where
  "speakText H text emotion s =
     (case ensureContext H s of
        (Inl e, s1) \<Rightarrow> (Inl e, s1)
      | (Inr None, s1) \<Rightarrow> (Inr None, s1)
      | (Inr (Some context), s1) \<Rightarrow>
          let s2 = s1\<lparr>isBusy := True\<rparr>;
              (result, s3) = guarded H (synthesiseText H context text emotion) s2
          in (result, s3\<lparr>isBusy := False\<rparr>))"

definition playFile :: "host \<Rightarrow> nat list \<Rightarrow> emotion \<Rightarrow> engine \<Rightarrow> (error + clip option) \<times> engine" where
  "playFile H file emotion s =
     (case ensureContext H s of
        (Inl e, s1) \<Rightarrow> (Inl e, s1)
      | (Inr None, s1) \<Rightarrow> (Inr None, s1)
      | (Inr (Some context), s1) \<Rightarrow>
          let s2 = s1\<lparr>isBusy := True\<rparr>;
              (result, s3) = guarded H (transformBufferWithEmotion H file emotion) s2
          in (result, s3\<lparr>isBusy := False\<rparr>))"

definition replay :: "host \<Rightarrow> engine \<Rightarrow> (error + unit) \<times> engine" where
  "replay H s =
     (case lastClipRef s of
        None \<Rightarrow> (Inr (), s)
      | Some c \<Rightarrow>
          (case playClip H (Some c) s of
             (Inl e, s') \<Rightarrow> (Inl e, s')
           | (Inr played, s') \<Rightarrow> (Inr (), s')))"

subsection \<open>Calls suspended at their awaits\<close>

text \<open>
  A call that is suspended is a task: \<^verbatim>\<open>playFile\<close> waits for
  \<^verbatim>\<open>file.arrayBuffer()\<close> and \<^verbatim>\<open>decodeAudioData\<close> (\<open>AwaitDecode\<close>; the engine's state is
  not touched between the two), then for \<^verbatim>\<open>offline.startRendering()\<close> (\<open>AwaitRender\<close>);
  \<^verbatim>\<open>playClip\<close> waits for \<^verbatim>\<open>context.resume()\<close> (\<open>AwaitResume\<close>, with the clip, and whether the
  caller is inside the \<^verbatim>\<open>try ... finally { setIsBusy(false) }\<close> of \<^verbatim>\<open>speakText\<close> or
  \<^verbatim>\<open>playFile\<close>). An \<^verbatim>\<open>await\<close> of a promise that is already settled continues before any other
  event and is not a suspension.
\<close>

datatype task =
    AwaitDecode "nat list" emotion
  | AwaitRender render_graph
  | AwaitResume clip bool

datatype progress = Finished "error + clip option" | Suspended task

text \<open>\<^verbatim>\<open>playClip\<close> up to \<^verbatim>\<open>await context.resume()\<close>, and from there on.\<close>

definition playClipBegin :: "host \<Rightarrow> clip option \<Rightarrow> engine \<Rightarrow> progress \<times> engine" where
  "playClipBegin H clipArg s =
     (case clipArg of
        None \<Rightarrow> (Finished (Inr None), s)
      | Some c \<Rightarrow>
          (case ensureContext H s of
             (Inl e, s1) \<Rightarrow> (Finished (Inl e), s1)
           | (Inr None, s1) \<Rightarrow> (Finished (Inr None), s1)
           | (Inr (Some context), s1) \<Rightarrow>
               if gainRef s1 = None then (Finished (Inr None), s1)
               else (Suspended (AwaitResume c False), stop s1)))"

definition playClipResume :: "host \<Rightarrow> clip \<Rightarrow> engine \<Rightarrow> (error + clip option) \<times> engine" where
  "playClipResume H c s =
     (case resume H of
        Some e \<Rightarrow> (Inl e, s)
      | None \<Rightarrow>
          let s3 = s\<lparr>sourceRef := Some (buffer c)\<rparr>;
              s4 = startAnalyserLoop s3
          in (Inr (Some c), s4\<lparr>lastClipRef := Some c\<rparr>))"

text \<open>
  \<^verbatim>\<open>await playClip(clip); return clip\<close> inside the \<^verbatim>\<open>try\<close> of \<^verbatim>\<open>speakText\<close> and
  \<^verbatim>\<open>playFile\<close>, with its \<^verbatim>\<open>finally\<close> when the call ends here.
\<close>

fun inTry :: "task \<Rightarrow> task" where
  "inTry (AwaitResume c b) = AwaitResume c True"
| "inTry t = t"

definition tryPlay :: "host \<Rightarrow> clip option \<Rightarrow> engine \<Rightarrow> progress \<times> engine" where
  "tryPlay H c s =
     (case playClipBegin H c s of
        (Finished (Inl e), s') \<Rightarrow> (Finished (Inl e), s'\<lparr>isBusy := False\<rparr>)
      | (Finished (Inr played), s') \<Rightarrow> (Finished (Inr c), s'\<lparr>isBusy := False\<rparr>)
      | (Suspended t, s') \<Rightarrow> (Suspended (inTry t), s'))"

definition speakTextBegin :: "host \<Rightarrow> jsstring \<Rightarrow> emotion \<Rightarrow> engine \<Rightarrow> progress \<times> engine" where
  "speakTextBegin H text emotion s =
     (case ensureContext H s of
        (Inl e, s1) \<Rightarrow> (Finished (Inl e), s1)
      | (Inr None, s1) \<Rightarrow> (Finished (Inr None), s1)
      | (Inr (Some context), s1) \<Rightarrow>
          let s2 = s1\<lparr>isBusy := True\<rparr>
          in case synthesiseText H context text emotion of
               Inl e \<Rightarrow> (Finished (Inl e), s2\<lparr>isBusy := False\<rparr>)
             | Inr c \<Rightarrow> tryPlay H c s2)"

definition playFileBegin :: "host \<Rightarrow> nat list \<Rightarrow> emotion \<Rightarrow> engine \<Rightarrow> progress \<times> engine" where
  "playFileBegin H file emotion s =
     (case ensureContext H s of
        (Inl e, s1) \<Rightarrow> (Finished (Inl e), s1)
      | (Inr None, s1) \<Rightarrow> (Finished (Inr None), s1)
      | (Inr (Some context), s1) \<Rightarrow> (Suspended (AwaitDecode file emotion), s1\<lparr>isBusy := True\<rparr>))"

definition replayBegin :: "host \<Rightarrow> engine \<Rightarrow> progress \<times> engine" where
  "replayBegin H s =
     (case lastClipRef s of
        None \<Rightarrow> (Finished (Inr None), s)
      | Some c \<Rightarrow> playClipBegin H (Some c) s)"

text \<open>What a suspended call does when the promise it waits for settles.\<close>

fun resumeTask :: "host \<Rightarrow> task \<Rightarrow> engine \<Rightarrow> progress \<times> engine" where
  "resumeTask H (AwaitDecode file emotion) s =
     (case decodeAudioData H file of
        Inl e \<Rightarrow> (Finished (Inl e), s\<lparr>isBusy := False\<rparr>)
      | Inr decoded \<Rightarrow>
          (case buildGraph decoded emotion of
             Inl e \<Rightarrow> (Finished (Inl e), s\<lparr>isBusy := False\<rparr>)
           | Inr g \<Rightarrow> (Suspended (AwaitRender g), s)))"
| "resumeTask H (AwaitRender g) s =
     (let rendered = startRendering H g
      in tryPlay H (Some \<lparr>buffer = rendered,
                            duration = real (bufLength rendered) / sampleRate rendered\<rparr>) s)"
| "resumeTask H (AwaitResume c resets) s =
     (case playClipResume H c s of
        (r, s') \<Rightarrow> (Finished r, if resets then s'\<lparr>isBusy := False\<rparr> else s'))"

text \<open>
  The events of the page: calls of the four operations the hook returns, animation frames,
  \<^verbatim>\<open>ended\<close> events of a source, and the settling of the promise the \<open>i\<close>-th suspended call
  waits for. \<open>running H ts s\<close>: the engine can be in state \<open>s\<close> with the calls \<open>ts\<close> suspended.
\<close>

datatype event =
    CallSpeakText jsstring emotion
  | CallPlayFile "nat list" emotion
  | CallReplay
  | CallStop
  | Frame "nat \<Rightarrow> real"
  | Ended
  | Settle nat

fun pending :: "progress \<Rightarrow> task list" where
  "pending (Finished r) = []"
| "pending (Suspended t) = [t]"

fun step :: "host \<Rightarrow> event \<Rightarrow> task list \<times> engine \<Rightarrow> task list \<times> engine" where
  "step H (CallSpeakText text emotion) (ts, s) =
     (case speakTextBegin H text emotion s of (p, s') \<Rightarrow> (ts @ pending p, s'))"
| "step H (CallPlayFile file emotion) (ts, s) =
     (case playFileBegin H file emotion s of (p, s') \<Rightarrow> (ts @ pending p, s'))"
| "step H CallReplay (ts, s) =
     (case replayBegin H s of (p, s') \<Rightarrow> (ts @ pending p, s'))"
| "step H CallStop (ts, s) = (ts, stop s)"
| "step H (Frame data) (ts, s) = (ts, animationFrame data s)"
| "step H Ended (ts, s) = (ts, onended s)"
| "step H (Settle i) (ts, s) =
     (if i < length ts
      then case resumeTask H (ts ! i) s of
             (p, s') \<Rightarrow> (take i ts @ drop (Suc i) ts @ pending p, s')
      else (ts, s))"

fun runEvents :: "host \<Rightarrow> event list \<Rightarrow> task list \<times> engine \<Rightarrow> task list \<times> engine" where
  "runEvents H [] st = st"
| "runEvents H (ev # evs) st = runEvents H evs (step H ev st)"

inductive running :: "host \<Rightarrow> task list \<Rightarrow> engine \<Rightarrow> bool" for H :: host where
  run_init: "running H [] initialEngine"
| run_step: "running H ts s \<Longrightarrow> step H ev (ts, s) = (ts', s') \<Longrightarrow> running H ts' s'"


text \<open>Running a sequence of animation frames, one window of samples each.\<close>

fun frames :: "(nat \<Rightarrow> real) list \<Rightarrow> engine \<Rightarrow> engine" where
  "frames [] s = s"
| "frames (data # rest) s = frames rest (animationFrame data s)"

text \<open>At most one frame callback is pending, and \<open>rafRef\<close> holds its handle.\<close>

definition loopOwned :: "engine \<Rightarrow> bool" where
  "loopOwned s =
     (case frameQueue s of
        [] \<Rightarrow> True
      | [(h, n)] \<Rightarrow> h = rafRef s \<and> h \<noteq> 0
      | _ \<Rightarrow> False)"

text \<open>While \<open>isBusy\<close> is set, the engine has its audio context.\<close>

definition contextReady :: "host \<Rightarrow> engine \<Rightarrow> bool" where
  "contextReady H s = (isBusy s \<longrightarrow> hasWindow H \<and> audioRef s \<noteq> None)"

definition engineInv :: "host \<Rightarrow> engine \<Rightarrow> bool" where
  "engineInv H s = (loopOwned s \<and> contextReady H s)"

text \<open>A suspended call run on with nothing interleaved, for at most \<open>n\<close> awaits.\<close>

fun settleAll :: "host \<Rightarrow> nat \<Rightarrow> progress \<times> engine \<Rightarrow> progress \<times> engine" where
  "settleAll H 0 st = st"
| "settleAll H (Suc n) (Finished r, s) = (Finished r, s)"
| "settleAll H (Suc n) (Suspended t, s) = settleAll H n (resumeTask H t s)"

section \<open>Reference definitions and test inputs\<close>

text \<open>
  The amplitude mapping as the specification words it:
  \<open>extract(rms) = clamp((rms * 4.2)^1.2, 0, 1)\<close>.
\<close>

definition extractExcitation :: "real \<Rightarrow> real" where
  "extractExcitation rms = clamp ((rms * 4.2) powr 1.2) 0 1"

text \<open>
  A decoded file of three mono frames, a host whose decoder yields it, a host whose context
  reports a sample rate of 0 (so that \<^verbatim>\<open>createBuffer\<close> raises), and an analyser window of
  full-scale samples.
\<close>

definition tinyBuffer :: audio_buffer where
  "tinyBuffer =
     \<lparr>numberOfChannels = 1, bufLength = 3, sampleRate = 44100, channelData = [[0, 0, 0]]\<rparr>"

definition decodingHost :: host where
  "decodingHost = asciiHost\<lparr>decodeAudioData := (\<lambda>bytes. Inr tinyBuffer)\<rparr>"

text \<open>The render graph \<^verbatim>\<open>transformBufferWithEmotion\<close> builds for it with the default profile.\<close>

definition tinyGraph :: render_graph where
  "tinyGraph =
     \<lparr>gChannels = 1, gLength = 3, gSampleRate = 44100, gSource = tinyBuffer,
      gPlaybackRate = 1, gGain = 1.1, gFilterType = Highshelf, gFilterFrequency = 2800,
      gFilterGain = 0\<rparr>"

text \<open>
  A decoded file of eleven mono frames with its host, and a profile whose tempo is the double
  nearest to 1.1.
\<close>

definition elevenFrames :: audio_buffer where
  "elevenFrames =
     \<lparr>numberOfChannels = 1, bufLength = 11, sampleRate = 44100,
      channelData = [replicate 11 0]\<rparr>"

definition elevenHost :: host where
  "elevenHost = asciiHost\<lparr>decodeAudioData := (\<lambda>bytes. Inr elevenFrames)\<rparr>"

definition tempoNear11 :: emotion where
  "tempoNear11 = defaultProfile\<lparr>tempoMultiplier := 2476979795053773 / 2251799813685248\<rparr>"


definition loudWindow :: "nat \<Rightarrow> real" where
  "loudWindow i = 1"

text \<open>
  Two runs of the page on the decoding host. In the first, Stop is pressed while an upload
  is being decoded; the upload then goes on to play and a loud frame is analysed. In the
  second, a clip plays and a second upload is being decoded.
\<close>

definition stopDuringDecode :: "event list" where
  "stopDuringDecode =
     [CallPlayFile [] defaultProfile, CallStop, Settle 0, Settle 0, Settle 0, Frame loudWindow]"

definition playingWithUpload :: "event list" where
  "playingWithUpload =
     [CallPlayFile [] defaultProfile, Settle 0, Settle 0, Settle 0, Frame loudWindow,
      CallPlayFile [] defaultProfile]"

text \<open>
  The documented ranges of the five profile fields, as the specification lists them, and a
  profile outside them (tempo 5.0 and pitch 20, the specification's examples).
\<close>

definition inDocumentedRanges :: "emotion \<Rightarrow> bool" where
  "inDocumentedRanges e =
     (0.65 \<le> tempoMultiplier e \<and> tempoMultiplier e \<le> 1.45 \<and>
      - 6 \<le> pitchShift e \<and> pitchShift e \<le> 6 \<and>
      0.35 \<le> gestureIntensity e \<and> gestureIntensity e \<le> 1.4 \<and>
      0.4 \<le> mouthIntensity e \<and> mouthIntensity e \<le> 1.4 \<and>
      - 0.6 \<le> browLift e \<and> browLift e \<le> 1.2)"

definition clampToDocumentedRanges :: "emotion \<Rightarrow> emotion" where
  "clampToDocumentedRanges e =
     e\<lparr>tempoMultiplier := clamp (tempoMultiplier e) 0.65 1.45,
       pitchShift := clamp (pitchShift e) (- 6) 6,
       gestureIntensity := clamp (gestureIntensity e) 0.35 1.4,
       mouthIntensity := clamp (mouthIntensity e) 0.4 1.4,
       browLift := clamp (browLift e) (- 0.6) 1.2\<rparr>"

definition outOfRangeProfile :: emotion where
  "outOfRangeProfile =
     \<lparr>tempoMultiplier = 5, pitchShift = 20, gestureIntensity = 1, mouthIntensity = 1,
      browLift = 0\<rparr>"

text \<open>
  The constants \<^verbatim>\<open>synthesiseText\<close> computes for the text "Hi" with the default profile at
  44100 Hz: \<open>totalSamples = ceil ((2 * 0.14 + 0.28) * 44100) = 24696\<close>.
\<close>

definition hiConsts :: synth where
  "hiConsts = synthConsts defaultProfile 44100 24696"

section \<open>Properties of the synthesizer\<close>

lemma clamp_bounds: "mn \<le> mx \<Longrightarrow> mn \<le> clamp v mn mx \<and> clamp v mn mx \<le> mx"
  by (simp add: clamp_def)

lemma tempo_pos: "0 < clamp v 0.65 1.45"
  by (simp add: clamp_def)

lemma list_all_dropWhile: "list_all P (dropWhile P s) \<longleftrightarrow> list_all P s"
  by (induction s) auto

lemma isWhiteSpace_space: "isWhiteSpace 32"
  by (simp add: isWhiteSpace_def)

lemma trim_Nil_iff: "trim s = [] \<longleftrightarrow> list_all isWhiteSpace s"
proof -
  have "trim s = [] \<longleftrightarrow> list_all isWhiteSpace (dropWhile isWhiteSpace s)"
    by (simp add: trim_def list_all_iff)
  then show ?thesis by (simp add: list_all_dropWhile)
qed

lemma collapse_all_ws: "list_all isWhiteSpace (collapseWhitespace s) \<longleftrightarrow> list_all isWhiteSpace s"
proof (induction s rule: collapseWhitespace.induct)
  case 1
  show ?case by simp
next
  case (2 c cs)
  show ?case
  proof (cases "isWhiteSpace c")
    case True
    with 2 show ?thesis by (simp add: isWhiteSpace_space list_all_dropWhile)
  next
    case False
    with 2 show ?thesis by simp
  qed
qed

lemma normalise_Nil_iff:
  "trim (collapseWhitespace text) = [] \<longleftrightarrow> list_all isWhiteSpace text"
  by (simp add: trim_Nil_iff collapse_all_ws)

text \<open>
  Claim C1. Whenever the text is not empty after whitespace normalisation (and the context's
  sample rate is positive, as an \<^verbatim>\<open>AudioContext\<close>'s always is), \<^verbatim>\<open>synthesiseText\<close> returns a
  clip, and the clip's duration is
  \<open>totalChars * (BASE_CHAR_DURATION / clamp tempoMultiplier 0.65 1.45) + SILENCE_PADDING\<close>, where
  \<open>totalChars\<close> is the length of the normalised text, spaces included. The witness is the
  scenario "Hi there." with the default profile: a clip of 9 * 0.14 + 0.28 = 1.54 seconds.
\<close>

theorem synthesiseText_duration:
  assumes "trim (collapseWhitespace text) \<noteq> []"
    and "rate = (case ctxSampleRate context of Some r \<Rightarrow> r | None \<Rightarrow> 44100)" and "0 < rate"
  shows "\<exists>c. synthesiseText H context text emotion = Inr (Some c) \<and>
           duration c =
             real (length (trim (collapseWhitespace text))) *
               (BASE_CHAR_DURATION / clamp (tempoMultiplier emotion) 0.65 1.45) + SILENCE_PADDING"
proof -
  let ?content = "trim (collapseWhitespace text)"
  let ?d = "real (length ?content) *
               (BASE_CHAR_DURATION / clamp (tempoMultiplier emotion) 0.65 1.45) + SILENCE_PADDING"
  have "0 \<le> BASE_CHAR_DURATION / clamp (tempoMultiplier emotion) 0.65 1.45"
    using tempo_pos [of "tempoMultiplier emotion"] by (simp add: BASE_CHAR_DURATION_def)
  then have "0 \<le> real (length ?content) *
               (BASE_CHAR_DURATION / clamp (tempoMultiplier emotion) 0.65 1.45)"
    by (rule mult_nonneg_nonneg [OF of_nat_0_le_iff])
  moreover have "0 < SILENCE_PADDING"
    by (simp add: SILENCE_PADDING_def)
  ultimately have "0 < ?d"
    by (rule add_nonneg_pos)
  then have "0 < ?d * rate" using assms(3) by simp
  then have pos: "0 < \<lceil>?d * rate\<rceil>" by linarith
  then have "\<exists>b. createBuffer 1 \<lceil>?d * rate\<rceil> rate = Inr b"
    using assms(3) by (simp add: createBuffer_def)
  then show ?thesis
    using assms(1,2) by (auto simp add: synthesiseText_def Let_def split: prod.splits)
qed

theorem synthesiseText_duration_witness:
  "trim (collapseWhitespace (utf16 ''Hi there.'')) \<noteq> [] \<and>
   (\<exists>c. synthesiseText asciiHost \<lparr>ctxSampleRate = Some 44100\<rparr> (utf16 ''Hi there.'') defaultProfile
          = Inr (Some c) \<and> duration c = 1.54)"
proof -
  have n: "trim (collapseWhitespace (utf16 ''Hi there.'')) = utf16 ''Hi there.''"
    by (simp add: utf16_def trim_def isWhiteSpace_def)
  have ne: "trim (collapseWhitespace (utf16 ''Hi there.'')) \<noteq> []"
    unfolding n by (simp add: utf16_def)
  have d: "real (length (trim (collapseWhitespace (utf16 ''Hi there.'')))) *
          (BASE_CHAR_DURATION / clamp (tempoMultiplier defaultProfile) 0.65 1.45) + SILENCE_PADDING
        = 1.54"
    unfolding n
    by (simp add: utf16_def BASE_CHAR_DURATION_def SILENCE_PADDING_def clamp_def defaultProfile_def)
  from synthesiseText_duration [OF ne, of 44100 "\<lparr>ctxSampleRate = Some 44100\<rparr>" asciiHost defaultProfile]
  show ?thesis unfolding d using ne by simp
qed

text \<open>
  Claim C2. \<^verbatim>\<open>synthesiseText\<close> returns \<^verbatim>\<open>null\<close> exactly when the text is empty after
  collapsing whitespace runs and trimming. The \<^verbatim>\<open>null\<close> is a normal return value
  (\<open>Inr None\<close>, not an error \<open>Inl e\<close>) and carries no buffer.
\<close>

theorem synthesiseText_null_iff_blank:
  "synthesiseText H context text emotion = Inr None \<longleftrightarrow> trim (collapseWhitespace text) = []"
  by (simp add: synthesiseText_def Let_def split: sum.splits prod.splits)

theorem synthesiseText_null_iff_blank_witness:
  "synthesiseText asciiHost \<lparr>ctxSampleRate = Some 44100\<rparr> (utf16 ''  '') defaultProfile = Inr None \<and>
   synthesiseText asciiHost \<lparr>ctxSampleRate = Some 44100\<rparr> (utf16 ''Hi there.'') defaultProfile
     \<noteq> Inr None"
proof -
  have "trim (collapseWhitespace (utf16 ''  '')) = []"
    by (simp add: utf16_def trim_def isWhiteSpace_def)
  moreover have "trim (collapseWhitespace (utf16 ''Hi there.'')) \<noteq> []"
    by (simp add: utf16_def trim_def isWhiteSpace_def)
  ultimately show ?thesis
    using synthesiseText_null_iff_blank
            [of asciiHost "\<lparr>ctxSampleRate = Some 44100\<rparr>" "utf16 ''  ''" defaultProfile]
          synthesiseText_null_iff_blank
            [of asciiHost "\<lparr>ctxSampleRate = Some 44100\<rparr>" "utf16 ''Hi there.''" defaultProfile]
    by simp
qed

lemma baseFreq_pos: "0 < baseFreq lower"
proof (cases "VOWEL_FREQ lower")
  case None
  have "0 < 140 + real (charCodeAt0 lower mod 25) * 4"
    by (rule add_pos_nonneg) simp_all
  with None show ?thesis by (simp add: baseFreq_def)
next
  case (Some f)
  then have "0 < f" by (auto simp: VOWEL_FREQ_def split: if_splits)
  with Some show ?thesis by (simp add: baseFreq_def)
qed

text \<open>
  Claim C3. For any character, the synthesized frequency
  \<open>baseFreq * 2 powr (pitchShift / 12) * (if vowel then 1 else 0.92)\<close> is strictly increasing in
  \<open>pitchShift\<close>, for vowels and consonants alike (the frequency reads no other field of the
  profile).
\<close>

theorem charFreq_strict_mono:
  assumes "pitchShift e1 < pitchShift e2"
  shows "charFreq e1 lower < charFreq e2 lower"
proof -
  have "(2::real) powr (pitchShift e1 / 12) < 2 powr (pitchShift e2 / 12)"
    using assms by simp
  then have "baseFreq lower * 2 powr (pitchShift e1 / 12)
           < baseFreq lower * 2 powr (pitchShift e2 / 12)"
    using baseFreq_pos [of lower] by (rule mult_strict_left_mono)
  moreover have "(0::real) < (if isVowel lower then 1 else 0.92)"
    by simp
  ultimately show ?thesis
    unfolding charFreq_def by (rule mult_strict_right_mono)
qed

theorem charFreq_strict_mono_witness:
  "pitchShift defaultProfile < pitchShift (defaultProfile\<lparr>pitchShift := 12\<rparr>) \<and>
   charFreq defaultProfile [97] < charFreq (defaultProfile\<lparr>pitchShift := 12\<rparr>) [97] \<and>
   charFreq defaultProfile [97] = 210 \<and> charFreq (defaultProfile\<lparr>pitchShift := 12\<rparr>) [97] = 420 \<and>
   charFreq defaultProfile [98] < charFreq (defaultProfile\<lparr>pitchShift := 12\<rparr>) [98]"
proof -
  have h: "pitchShift defaultProfile < pitchShift (defaultProfile\<lparr>pitchShift := 12\<rparr>)"
    by (simp add: defaultProfile_def)
  have "charFreq defaultProfile [97] = 210"
    by (simp add: charFreq_def baseFreq_def isVowel_def VOWEL_FREQ_def defaultProfile_def)
  moreover have "charFreq (defaultProfile\<lparr>pitchShift := 12\<rparr>) [97] = 420"
    by (simp add: charFreq_def baseFreq_def isVowel_def VOWEL_FREQ_def defaultProfile_def)
  ultimately show ?thesis
    using h charFreq_strict_mono [OF h, of "[97]"] charFreq_strict_mono [OF h, of "[98]"]
    by simp
qed

section \<open>Properties of the amplitude extractor\<close>

lemma sumSquares_sum: "sumSquares data n = (\<Sum>i<n. (data i)\<^sup>2)"
  by (induction n) (simp_all add: power2_eq_square)

lemma tick_log:
  "amplitudeLog (tick n data s) =
     amplitudeLog s @ [clamp ((sqrt (sumSquares data n / real n) * 4.2) powr 1.2) 0 1]"
  by (simp add: tick_def Let_def onAmplitude_def requestAnimationFrame_def)

lemma one_le_powr: "1 \<le> ((1::real) * 4.2) powr 1.2"
  by (rule ge_one_powr_ge_zero) simp_all

text \<open>
  Claim C4. The mapping \<open>rms \<mapsto> clamp ((rms * 4.2) powr 1.2) 0 1\<close> takes values in \<open>[0, 1]\<close> and
  is monotone on \<open>rms \<ge> 0\<close>; and the value one run of \<^verbatim>\<open>tick\<close> passes to \<^verbatim>\<open>onAmplitude\<close> is this
  mapping applied to the root mean square of the sampled window.
\<close>

theorem excitation_bounded_monotone:
  assumes "0 \<le> rms1" and "rms1 < rms2"
  shows "0 \<le> extractExcitation rms1 \<and> extractExcitation rms1 \<le> 1 \<and> extractExcitation rms1 \<le> extractExcitation rms2 \<and>
         amplitudeLog (tick n data s) =
           amplitudeLog s @ [extractExcitation (sqrt ((\<Sum>i<n. (data i)\<^sup>2) / real n))]"
proof -
  have "(rms1 * 4.2) powr 1.2 \<le> (rms2 * 4.2) powr 1.2"
    using assms by (intro powr_mono2) simp_all
  then have "extractExcitation rms1 \<le> extractExcitation rms2"
    by (simp add: extractExcitation_def clamp_def)
  moreover have "0 \<le> extractExcitation rms1 \<and> extractExcitation rms1 \<le> 1"
    by (simp add: extractExcitation_def clamp_def)
  ultimately show ?thesis
    by (simp add: tick_log extractExcitation_def sumSquares_sum)
qed

theorem excitation_bounded_monotone_witness:
  "(0::real) \<le> 0 \<and> (0::real) < 5 / 21 \<and> extractExcitation 0 = 0 \<and> extractExcitation (5 / 21) = 1 \<and>
   extractExcitation 0 \<le> extractExcitation (5 / 21) \<and>
   amplitudeLog (tick 512 (\<lambda>i. 0) initialEngine) = [0]"
proof -
  have a: "extractExcitation 0 = 0" by (simp add: extractExcitation_def clamp_def)
  have b: "extractExcitation (5 / 21) = 1" by (simp add: extractExcitation_def clamp_def)
  from excitation_bounded_monotone [of 0 "5 / 21" 512 "\<lambda>i. 0" initialEngine]
  show ?thesis by (simp add: a b initialEngine_def)
qed

section \<open>Properties of binary64 rounding\<close>

lemma binary64_at:
  assumes "2 powr of_int k \<le> \<bar>x\<bar>" and "\<bar>x\<bar> < 2 powr (of_int k + 1)"
  shows "binary64 x = of_int (roundEven (x / 2 powr (of_int k - 52))) * 2 powr (of_int k - 52)"
proof -
  have "0 < (2::real) powr of_int k" by simp
  then have pos: "0 < \<bar>x\<bar>" using assms(1) by linarith
  then have "\<lfloor>log 2 \<bar>x\<bar>\<rfloor> = k"
    using assms by (simp add: floor_log_eq_powr_iff)
  then show ?thesis
    using pos by (simp add: binary64_def Let_def)
qed

lemma binary64_065: "binary64 0.65 = 5854679515581645 / 9007199254740992"
  using binary64_at [of "-1" "0.65"] by (simp add: roundEven_def Let_def powr_neg_numeral)

lemma binary64_145: "binary64 1.45 = 6530219459687219 / 4503599627370496"
  using binary64_at [of 0 "1.45"] by (simp add: roundEven_def Let_def powr_neg_numeral)

lemma binary64_3: "binary64 3 = 3"
  using binary64_at [of 1 3] by (simp add: roundEven_def Let_def powr_neg_numeral)

lemma binary64_12_5: "binary64 (12 / 5) = 5404319552844595 / 2251799813685248"
  using binary64_at [of 1 "12 / 5"] by (simp add: roundEven_def Let_def powr_neg_numeral)

lemma binary64_near10:
  "binary64 (11 / (2476979795053773 / 2251799813685248)) = 10"
  using binary64_at [of 3 "11 / (2476979795053773 / 2251799813685248)"]
  by (simp add: roundEven_def Let_def powr_neg_numeral)

lemma roundEven_ge:
  assumes "of_int n \<le> y"
  shows "n \<le> roundEven y"
proof -
  have "n \<le> \<lfloor>y\<rfloor>" using assms by (simp add: le_floor_iff)
  then show ?thesis by (simp add: roundEven_def Let_def)
qed

lemma binary64_ge_one:
  assumes "1 \<le> x"
  shows "1 \<le> binary64 x"
proof -
  define e where "e = \<lfloor>log 2 \<bar>x\<bar>\<rfloor>"
  have x: "0 < x" "\<bar>x\<bar> = x" using assms by simp_all
  have e0: "0 \<le> e"
    unfolding e_def x using assms by simp
  have le: "2 powr of_int e \<le> x"
    using floor_log_eq_powr_iff [of x 2 e] x e_def by simp
  have u: "0 < (2::real) powr (of_int e - 52)" by simp
  have "x / 2 powr (of_int e - 52) \<ge> 2 powr of_int e / 2 powr (of_int e - 52)"
    using le u by (simp add: divide_right_mono)
  moreover have "(2::real) powr of_int e / 2 powr (of_int e - 52) = of_int (2 ^ 52)"
    by (simp add: powr_diff)
  ultimately have "2 ^ 52 \<le> roundEven (x / 2 powr (of_int e - 52))"
    by (intro roundEven_ge) simp
  then have "real_of_int (2 ^ 52) * 2 powr (of_int e - 52)
               \<le> real_of_int (roundEven (x / 2 powr (of_int e - 52))) * 2 powr (of_int e - 52)"
    using u by (intro mult_right_mono) simp_all
  moreover have "real_of_int (2 ^ 52) * 2 powr (of_int e - 52) = (2::real) powr of_int e"
    by (simp add: powr_diff)
  moreover have "1 \<le> (2::real) powr of_int e"
    using e0 by (simp add: ge_one_powr_ge_zero)
  moreover have "binary64 x = of_int (roundEven (x / 2 powr (of_int e - 52))) * 2 powr (of_int e - 52)"
    using x by (simp add: binary64_def Let_def e_def)
  ultimately show ?thesis by linarith
qed

lemma tempo64_pos: "0 < clamp v (binary64 0.65) (binary64 1.45)"
  unfolding binary64_065 binary64_145 by (simp add: clamp_def)

lemma tempo64_of_default:
  "clamp (tempoMultiplier defaultProfile) (binary64 0.65) (binary64 1.45) = 1"
  unfolding binary64_065 binary64_145 by (simp add: clamp_def defaultProfile_def)

section \<open>Properties of the transformer\<close>

lemma transform_at:
  assumes "decodeAudioData H file = Inr decoded"
    and "clamp (tempoMultiplier emotion) (binary64 0.65) (binary64 1.45) = t"
    and "\<lfloor>binary64 (real (bufLength decoded) / t)\<rfloor> = int n" and "0 < n"
    and "0 < numberOfChannels decoded" and "0 < sampleRate decoded"
  shows "\<exists>g. buildGraph decoded emotion = Inr g \<and> gLength g = n \<and>
           gChannels g = numberOfChannels decoded \<and> gSampleRate g = sampleRate decoded \<and>
           transformBufferWithEmotion H file emotion =
             Inr (Some \<lparr>buffer = \<lparr>numberOfChannels = numberOfChannels decoded, bufLength = n,
                                   sampleRate = sampleRate decoded,
                                   channelData = renderSamples H g\<rparr>,
                        duration = real n / sampleRate decoded\<rparr>)"
proof -
  have "(1::int) \<le> \<lfloor>binary64 (real (bufLength decoded) / t)\<rfloor>"
    using assms(3,4) by simp
  then have "1 \<le> binary64 (real (bufLength decoded) / t)"
    by (simp add: le_floor_iff)
  then show ?thesis
    using assms
    by (simp add: transformBufferWithEmotion_def buildGraph_def startRendering_def Let_def)
qed

lemma tiny_default_clip:
  "transformBufferWithEmotion decodingHost file defaultProfile =
     Inr (Some \<lparr>buffer = \<lparr>numberOfChannels = 1, bufLength = 3, sampleRate = 44100,
                           channelData = [[0, 0, 0]]\<rparr>,
                duration = 3 / 44100\<rparr>)"
proof -
  have d: "decodeAudioData decodingHost file = Inr tinyBuffer"
    by (simp add: decodingHost_def)
  have l: "\<lfloor>binary64 (real (bufLength tinyBuffer) / 1)\<rfloor> = int 3"
    by (simp add: tinyBuffer_def binary64_3)
  from transform_at [OF d tempo64_of_default l]
  show ?thesis
    by (auto simp: tinyBuffer_def decodingHost_def asciiHost_def numeral_3_eq_3)
qed

text \<open>
  Claim C5, as stated, fails: the offline buffer has \<open>floor (length / tempo)\<close> frames, not the
  ceiling. Three decoded frames at tempo 1.25 render into 2 frames, while the ceiling of
  3 / 1.25 is 3.
\<close>

theorem transform_length_counterexample:
  "transformBufferWithEmotion decodingHost [] (defaultProfile\<lparr>tempoMultiplier := 1.25\<rparr>) =
     Inr (Some \<lparr>buffer = \<lparr>numberOfChannels = 1, bufLength = 2, sampleRate = 44100,
                           channelData = [[0, 0]]\<rparr>,
                duration = 2 / 44100\<rparr>) \<and>
   \<lceil>real (bufLength tinyBuffer) / clamp (tempoMultiplier (defaultProfile\<lparr>tempoMultiplier := 1.25\<rparr>)) 0.65 1.45\<rceil> = 3"
proof -
  have d: "decodeAudioData decodingHost [] = Inr tinyBuffer"
    by (simp add: decodingHost_def)
  have t: "clamp (tempoMultiplier (defaultProfile\<lparr>tempoMultiplier := 1.25\<rparr>))
             (binary64 0.65) (binary64 1.45) = 5 / 4"
    unfolding binary64_065 binary64_145 by (simp add: clamp_def)
  have l: "\<lfloor>binary64 (real (bufLength tinyBuffer) / (5 / 4))\<rfloor> = int 2"
    by (simp add: tinyBuffer_def binary64_12_5)
  from transform_at [OF d t l]
  have "transformBufferWithEmotion decodingHost [] (defaultProfile\<lparr>tempoMultiplier := 1.25\<rparr>) =
     Inr (Some \<lparr>buffer = \<lparr>numberOfChannels = 1, bufLength = 2, sampleRate = 44100,
                           channelData = [[0, 0]]\<rparr>,
                duration = 2 / 44100\<rparr>)"
    by (auto simp: tinyBuffer_def decodingHost_def asciiHost_def numeral_2_eq_2)
  then show ?thesis
    by (simp add: tinyBuffer_def clamp_def)
qed

text \<open>
  Claim C5, amended. When decoding succeeds and the decoded buffer has at least \<open>tempo\<close>
  frames, where \<open>tempo\<close> is \<open>tempoMultiplier\<close> clamped to \<open>[0.65, 1.45]\<close> (the doubles nearest to
  these bounds), \<^verbatim>\<open>transformBufferWithEmotion\<close> renders into a fresh offline buffer of
  \<open>floor (originalLength / tempo)\<close> frames, the quotient being the double the division
  yields, at the original sample rate and channel count, plays the decoded source at rate
  \<open>2 powr (pitchShift / 12) / tempo\<close>, and returns a clip whose duration is the rendered frame
  count divided by the rendered sample rate. (The condition on the number of frames makes
  the length at least 1, which the offline context requires.) The witness is a case where
  rounding matters: 11 frames at the double nearest to 1.1 render into 10 frames, while the
  floor of the exact quotient is 9.
\<close>

theorem transform_shape:
  assumes "decodeAudioData H file = Inr decoded"
    and "0 < numberOfChannels decoded" and "0 < sampleRate decoded"
    and "clamp (tempoMultiplier emotion) (binary64 0.65) (binary64 1.45)
           \<le> real (bufLength decoded)"
  shows "\<exists>c g. transformBufferWithEmotion H file emotion = Inr (Some c) \<and>
           buildGraph decoded emotion = Inr g \<and>
           buffer c = startRendering H g \<and>
           bufLength (buffer c) =
             nat \<lfloor>binary64 (real (bufLength decoded) /
                     clamp (tempoMultiplier emotion) (binary64 0.65) (binary64 1.45))\<rfloor> \<and>
           sampleRate (buffer c) = sampleRate decoded \<and>
           numberOfChannels (buffer c) = numberOfChannels decoded \<and>
           gSource g = decoded \<and>
           gPlaybackRate g =
             2 powr (pitchShift emotion / 12) /
               clamp (tempoMultiplier emotion) (binary64 0.65) (binary64 1.45) \<and>
           duration c = real (bufLength (buffer c)) / sampleRate (buffer c)"
proof -
  let ?tempo = "clamp (tempoMultiplier emotion) (binary64 0.65) (binary64 1.45)"
  have "1 \<le> real (bufLength decoded) / ?tempo"
    using assms(4) tempo64_pos [of "tempoMultiplier emotion"] by (simp add: pos_le_divide_eq)
  then have "1 \<le> binary64 (real (bufLength decoded) / ?tempo)"
    by (rule binary64_ge_one)
  then have "0 < \<lfloor>binary64 (real (bufLength decoded) / ?tempo)\<rfloor>"
    by linarith
  then show ?thesis
    using assms(1,2,3)
    by (simp add: transformBufferWithEmotion_def buildGraph_def startRendering_def Let_def)
qed

theorem transform_shape_witness:
  "decodeAudioData elevenHost [82, 73, 70, 70] = Inr elevenFrames \<and>
   0 < numberOfChannels elevenFrames \<and> 0 < sampleRate elevenFrames \<and>
   clamp (tempoMultiplier tempoNear11) (binary64 0.65) (binary64 1.45)
     \<le> real (bufLength elevenFrames) \<and>
   \<lfloor>real (bufLength elevenFrames) / tempoMultiplier tempoNear11\<rfloor> = 9 \<and>
   (\<exists>c g. transformBufferWithEmotion elevenHost [82, 73, 70, 70] tempoNear11 = Inr (Some c) \<and>
          buildGraph elevenFrames tempoNear11 = Inr g \<and>
          bufLength (buffer c) = 10 \<and> sampleRate (buffer c) = 44100 \<and>
          numberOfChannels (buffer c) = 1 \<and>
          gPlaybackRate g = 1 / (2476979795053773 / 2251799813685248) \<and>
          duration c = 10 / 44100)"
proof -
  have h1: "decodeAudioData elevenHost [82, 73, 70, 70] = Inr elevenFrames"
    by (simp add: elevenHost_def)
  have h2: "0 < numberOfChannels elevenFrames" and h3: "0 < sampleRate elevenFrames"
    by (simp_all add: elevenFrames_def)
  have t: "clamp (tempoMultiplier tempoNear11) (binary64 0.65) (binary64 1.45)
             = 2476979795053773 / 2251799813685248"
    unfolding binary64_065 binary64_145 by (simp add: clamp_def tempoNear11_def)
  have h4: "clamp (tempoMultiplier tempoNear11) (binary64 0.65) (binary64 1.45)
              \<le> real (bufLength elevenFrames)"
    unfolding t by (simp add: elevenFrames_def)
  have x: "\<lfloor>real (bufLength elevenFrames) / tempoMultiplier tempoNear11\<rfloor> = 9"
    by (simp add: elevenFrames_def tempoNear11_def)
  have n: "real (bufLength elevenFrames) = 11"
    by (simp add: elevenFrames_def)
  have l: "nat \<lfloor>binary64 (real (bufLength elevenFrames) /
                  (2476979795053773 / 2251799813685248))\<rfloor> = 10"
    unfolding n binary64_near10 by simp
  have q: "sampleRate elevenFrames = 44100" "numberOfChannels elevenFrames = 1"
    by (simp_all add: elevenFrames_def)
  have p: "pitchShift tempoNear11 = 0"
    by (simp add: tempoNear11_def defaultProfile_def)
  from transform_shape [OF h1 h2 h3 h4]
  show ?thesis
    unfolding t l p q using h1 h4 x unfolding t by auto
qed

text \<open>
  Claim C6. When \<^verbatim>\<open>decodeAudioData\<close> rejects the bytes, \<^verbatim>\<open>transformBufferWithEmotion\<close> fails
  with that error, \<^verbatim>\<open>playFile\<close> (on an engine that has an audio context) fails with the same
  error instead of returning a clip, and no clip is stored or played.
\<close>

theorem decode_error_propagates:
  assumes "decodeAudioData H file = Inl e"
    and "fst (ensureContext H s) = Inr (Some context)"
  shows "transformBufferWithEmotion H file emotion = Inl e \<and>
         fst (playFile H file emotion s) = Inl e \<and>
         lastClipRef (snd (playFile H file emotion s)) = lastClipRef s \<and>
         sourceRef (snd (playFile H file emotion s)) = sourceRef s \<and>
         amplitudeLog (snd (playFile H file emotion s)) = amplitudeLog s"
proof -
  have t: "transformBufferWithEmotion H file emotion = Inl e"
    using assms(1) by (simp add: transformBufferWithEmotion_def)
  obtain s1 where e: "ensureContext H s = (Inr (Some context), s1)"
    using assms(2) by (cases "ensureContext H s") auto
  have k: "lastClipRef s1 = lastClipRef s \<and> sourceRef s1 = sourceRef s \<and>
           amplitudeLog s1 = amplitudeLog s"
    using e by (auto simp: ensureContext_def split: if_splits option.splits)
  show ?thesis
    using t e k by (simp add: playFile_def guarded_def)
qed

theorem decode_error_propagates_witness:
  "decodeAudioData asciiHost [1, 2, 3] = Inl EncodingError \<and>
   fst (ensureContext asciiHost initialEngine) = Inr (Some \<lparr>ctxSampleRate = Some 44100\<rparr>) \<and>
   transformBufferWithEmotion asciiHost [1, 2, 3] defaultProfile = Inl EncodingError \<and>
   fst (playFile asciiHost [1, 2, 3] defaultProfile initialEngine) = Inl EncodingError \<and>
   lastClipRef (snd (playFile asciiHost [1, 2, 3] defaultProfile initialEngine)) = None"
proof -
  have h1: "decodeAudioData asciiHost [1, 2, 3] = Inl EncodingError"
    by (simp add: asciiHost_def)
  have h2: "fst (ensureContext asciiHost initialEngine) = Inr (Some \<lparr>ctxSampleRate = Some 44100\<rparr>)"
    by (simp add: ensureContext_def asciiHost_def initialEngine_def)
  from decode_error_propagates [OF h1 h2, of defaultProfile]
  show ?thesis using h1 h2 by (simp add: initialEngine_def)
qed

section \<open>Properties of the playback session\<close>

lemma ensureContext_keeps:
  "isBusy (snd (ensureContext H s)) = isBusy s \<and>
   frameQueue (snd (ensureContext H s)) = frameQueue s \<and>
   rafRef (snd (ensureContext H s)) = rafRef s \<and>
   amplitudeLog (snd (ensureContext H s)) = amplitudeLog s"
  by (simp add: ensureContext_def split: option.splits)

lemma cancelAnalyser_clears:
  "loopOwned s \<Longrightarrow> frameQueue (cancelAnalyser s) = [] \<and> rafRef (cancelAnalyser s) = 0"
  by (auto simp: loopOwned_def cancelAnalyser_def cancelAnimationFrame_def
           split: list.splits prod.splits)

lemma cancelAnalyser_keeps:
  "isBusy (cancelAnalyser s) = isBusy s \<and> amplitudeLog (cancelAnalyser s) = amplitudeLog s"
  by (simp add: cancelAnalyser_def cancelAnimationFrame_def)

lemma stop_effect:
  "loopOwned s \<Longrightarrow>
     frameQueue (stop s) = [] \<and> rafRef (stop s) = 0 \<and> amplitudeLog (stop s) = amplitudeLog s @ [0]"
  using cancelAnalyser_clears [of s] cancelAnalyser_keeps [of s]
  by (simp add: stop_def Let_def onAmplitude_def split: option.splits)

lemma stop_isBusy: "isBusy (stop s) = isBusy s"
  using cancelAnalyser_keeps [of s]
  by (simp add: stop_def Let_def onAmplitude_def split: option.splits)

lemma onended_effect:
  "loopOwned s \<Longrightarrow>
     frameQueue (onended s) = [] \<and> rafRef (onended s) = 0 \<and>
     amplitudeLog (onended s) = amplitudeLog s @ [0]"
  using cancelAnalyser_clears [of s] cancelAnalyser_keeps [of s]
  by (simp add: onended_def Let_def onAmplitude_def)

lemma onended_isBusy: "isBusy (onended s) = isBusy s"
  using cancelAnalyser_keeps [of s] by (simp add: onended_def Let_def onAmplitude_def)

lemma empty_queue_owned: "frameQueue s = [] \<Longrightarrow> loopOwned s"
  by (simp add: loopOwned_def)

lemma startAnalyserLoop_owned: "loopOwned s \<Longrightarrow> loopOwned (startAnalyserLoop s)"
  using cancelAnalyser_clears [of s]
  by (simp add: startAnalyserLoop_def Let_def requestAnimationFrame_def loopOwned_def
           split: option.splits)

lemma startAnalyserLoop_isBusy: "isBusy (startAnalyserLoop s) = isBusy s"
  using cancelAnalyser_keeps [of s]
  by (simp add: startAnalyserLoop_def Let_def requestAnimationFrame_def split: option.splits)

lemma animationFrame_owned: "loopOwned s \<Longrightarrow> loopOwned (animationFrame data s)"
  by (auto simp: animationFrame_def tick_def Let_def requestAnimationFrame_def onAmplitude_def
                 loopOwned_def split: list.splits prod.splits)

lemma animationFrame_isBusy: "isBusy (animationFrame data s) = isBusy s"
  by (simp add: animationFrame_def tick_def Let_def requestAnimationFrame_def onAmplitude_def
           split: list.splits prod.splits)

lemma frames_idle: "frameQueue s = [] \<Longrightarrow> frames ws s = s"
  by (induction ws) (simp_all add: animationFrame_def)

lemma loopOwned_cong:
  "frameQueue s' = frameQueue s \<Longrightarrow> rafRef s' = rafRef s \<Longrightarrow> loopOwned s' = loopOwned s"
  by (auto simp: loopOwned_def split: list.splits)

lemma ensureContext_owned: "loopOwned (snd (ensureContext H s)) = loopOwned s"
  using ensureContext_keeps [of H s] loopOwned_cong [of "snd (ensureContext H s)" s] by simp

lemma playClip_owned:
  assumes "loopOwned s"
  shows "loopOwned (snd (playClip H c s))"
proof -
  obtain r s1 where e: "ensureContext H s = (r, s1)"
    by (cases "ensureContext H s")
  have o1: "loopOwned s1"
    using assms ensureContext_owned [of H s] e by simp
  have o2: "loopOwned (stop s1)"
    using stop_effect [OF o1] by (simp add: empty_queue_owned)
  have "loopOwned ((stop s1)\<lparr>sourceRef := x\<rparr>)" for x
    using o2 loopOwned_cong [of "(stop s1)\<lparr>sourceRef := x\<rparr>" "stop s1"] by simp
  then have "loopOwned (startAnalyserLoop ((stop s1)\<lparr>sourceRef := x\<rparr>))" for x
    by (rule startAnalyserLoop_owned)
  then have o3: "loopOwned ((startAnalyserLoop ((stop s1)\<lparr>sourceRef := x\<rparr>))\<lparr>lastClipRef := y\<rparr>)"
    for x y
    using loopOwned_cong [of "(startAnalyserLoop ((stop s1)\<lparr>sourceRef := x\<rparr>))\<lparr>lastClipRef := y\<rparr>"
                             "startAnalyserLoop ((stop s1)\<lparr>sourceRef := x\<rparr>)"]
    by simp
  show ?thesis
    using assms e o1 o2 o3
    by (simp add: playClip_def Let_def split: option.splits sum.splits)
qed

lemma playClip_isBusy: "isBusy (snd (playClip H c s)) = isBusy s"
proof -
  obtain r s1 where e: "ensureContext H s = (r, s1)"
    by (cases "ensureContext H s")
  have "isBusy s1 = isBusy s"
    using ensureContext_keeps [of H s] e by simp
  then show ?thesis
    using e
    by (simp add: playClip_def Let_def stop_isBusy startAnalyserLoop_isBusy
             split: option.splits sum.splits)
qed

lemma guarded_owned:
  assumes "loopOwned s"
  shows "loopOwned (snd (guarded H made s))"
proof (cases made)
  case (Inl e)
  then show ?thesis using assms by (simp add: guarded_def)
next
  case (Inr c)
  obtain r s' where p: "playClip H c s = (r, s')"
    by (cases "playClip H c s")
  have "loopOwned s'"
    using playClip_owned [OF assms, of H c] p by simp
  then show ?thesis
    using Inr p by (simp add: guarded_def split: sum.splits)
qed

lemma guarded_isBusy: "isBusy (snd (guarded H made s)) = isBusy s"
proof (cases made)
  case (Inl e)
  then show ?thesis by (simp add: guarded_def)
next
  case (Inr c)
  obtain r s' where p: "playClip H c s = (r, s')"
    by (cases "playClip H c s")
  have "isBusy s' = isBusy s"
    using playClip_isBusy [of H c s] p by simp
  then show ?thesis
    using Inr p by (simp add: guarded_def split: sum.splits)
qed

lemma finally_owned:
  assumes "loopOwned s"
  shows "loopOwned ((snd (guarded H made (s\<lparr>isBusy := True\<rparr>)))\<lparr>isBusy := False\<rparr>)"
proof -
  have "loopOwned (s\<lparr>isBusy := True\<rparr>)"
    using assms loopOwned_cong [of "s\<lparr>isBusy := True\<rparr>" s] by simp
  then have "loopOwned (snd (guarded H made (s\<lparr>isBusy := True\<rparr>)))"
    by (rule guarded_owned)
  then show ?thesis
    using loopOwned_cong [of "(snd (guarded H made (s\<lparr>isBusy := True\<rparr>)))\<lparr>isBusy := False\<rparr>"
                             "snd (guarded H made (s\<lparr>isBusy := True\<rparr>))"]
    by simp
qed

lemma speakText_owned:
  assumes "loopOwned s"
  shows "loopOwned (snd (speakText H text emotion s))"
proof -
  obtain r s1 where e: "ensureContext H s = (r, s1)"
    by (cases "ensureContext H s")
  have o1: "loopOwned s1"
    using assms ensureContext_owned [of H s] e by simp
  show ?thesis
    using e o1 finally_owned [OF o1, of H]
    by (simp add: speakText_def Let_def split_beta split: option.splits sum.splits)
qed

lemma playFile_owned:
  assumes "loopOwned s"
  shows "loopOwned (snd (playFile H file emotion s))"
proof -
  obtain r s1 where e: "ensureContext H s = (r, s1)"
    by (cases "ensureContext H s")
  have o1: "loopOwned s1"
    using assms ensureContext_owned [of H s] e by simp
  show ?thesis
    using e o1 finally_owned [OF o1, of H]
    by (simp add: playFile_def Let_def split_beta split: option.splits sum.splits)
qed

lemma replay_owned:
  assumes "loopOwned s"
  shows "loopOwned (snd (replay H s))"
proof (cases "lastClipRef s")
  case None
  then show ?thesis using assms by (simp add: replay_def)
next
  case (Some c)
  obtain r s' where p: "playClip H (Some c) s = (r, s')"
    by (cases "playClip H (Some c) s")
  have "loopOwned s'"
    using playClip_owned [OF assms, of H "Some c"] p by simp
  then show ?thesis
    using Some p by (simp add: replay_def split: sum.splits)
qed

lemma replay_isBusy: "isBusy (snd (replay H s)) = isBusy s"
proof (cases "lastClipRef s")
  case None
  then show ?thesis by (simp add: replay_def)
next
  case (Some c)
  obtain r s' where p: "playClip H (Some c) s = (r, s')"
    by (cases "playClip H (Some c) s")
  have "isBusy s' = isBusy s"
    using playClip_isBusy [of H "Some c" s] p by simp
  then show ?thesis
    using Some p by (simp add: replay_def split: sum.splits)
qed



lemma engineInv_same:
  assumes "engineInv H s"
    and "frameQueue s' = frameQueue s" and "rafRef s' = rafRef s"
    and "audioRef s' = audioRef s" and "isBusy s' \<longrightarrow> isBusy s"
  shows "engineInv H s'"
  using assms loopOwned_cong [of s' s] by (auto simp: engineInv_def contextReady_def)

lemma engineInv_idle:
  assumes "frameQueue s = []"
    and "contextReady H s"
  shows "engineInv H s"
  using assms by (simp add: engineInv_def empty_queue_owned)

lemma cancelAnalyser_audio: "audioRef (cancelAnalyser s) = audioRef s"
  by (simp add: cancelAnalyser_def cancelAnimationFrame_def)

lemma stop_audio: "audioRef (stop s) = audioRef s"
  using cancelAnalyser_audio [of s]
  by (simp add: stop_def Let_def onAmplitude_def split: option.splits)

lemma onended_audio: "audioRef (onended s) = audioRef s"
  using cancelAnalyser_audio [of s] by (simp add: onended_def Let_def onAmplitude_def)

lemma startAnalyserLoop_audio: "audioRef (startAnalyserLoop s) = audioRef s"
  using cancelAnalyser_audio [of s]
  by (simp add: startAnalyserLoop_def Let_def requestAnimationFrame_def split: option.splits)

lemma animationFrame_audio: "audioRef (animationFrame data s) = audioRef s"
  by (simp add: animationFrame_def tick_def Let_def requestAnimationFrame_def onAmplitude_def
           split: list.splits prod.splits)

lemma stop_inv: "engineInv H s \<Longrightarrow> engineInv H (stop s)"
  using stop_effect [of s] stop_isBusy [of s] stop_audio [of s]
  by (simp add: engineInv_def contextReady_def empty_queue_owned)

lemma onended_inv: "engineInv H s \<Longrightarrow> engineInv H (onended s)"
  using onended_effect [of s] onended_isBusy [of s] onended_audio [of s]
  by (simp add: engineInv_def contextReady_def empty_queue_owned)

lemma animationFrame_inv: "engineInv H s \<Longrightarrow> engineInv H (animationFrame data s)"
  using animationFrame_owned [of s data] animationFrame_isBusy [of data s]
    animationFrame_audio [of data s]
  by (simp add: engineInv_def contextReady_def)

lemma startAnalyserLoop_inv: "engineInv H s \<Longrightarrow> engineInv H (startAnalyserLoop s)"
  using startAnalyserLoop_owned [of s] startAnalyserLoop_isBusy [of s]
    startAnalyserLoop_audio [of s]
  by (simp add: engineInv_def contextReady_def)

lemma ensureContext_audio:
  "audioRef s \<noteq> None \<Longrightarrow> audioRef (snd (ensureContext H s)) \<noteq> None"
  by (auto simp: ensureContext_def split: option.splits)

lemma ensureContext_inv: "engineInv H s \<Longrightarrow> engineInv H (snd (ensureContext H s))"
  using ensureContext_owned [of H s] ensureContext_keeps [of H s] ensureContext_audio [of s H]
  by (auto simp: engineInv_def contextReady_def)

lemma ensureContext_ready:
  assumes "ensureContext H s = (Inr (Some c), s1)"
  shows "hasWindow H \<and> audioRef s1 \<noteq> None"
  using assms by (auto simp: ensureContext_def split: if_splits option.splits)


lemma playClipBegin_inv:
  assumes "engineInv H s"
  shows "engineInv H (snd (playClipBegin H c s))"
proof -
  obtain r s1 where e: "ensureContext H s = (r, s1)"
    by (cases "ensureContext H s")
  have i1: "engineInv H s1"
    using ensureContext_inv [OF assms] e by simp
  have i2: "engineInv H (stop s1)"
    using i1 by (rule stop_inv)
  show ?thesis
    using assms e i1 i2
    by (simp add: playClipBegin_def split: option.splits sum.splits)
qed

lemma playClipBegin_isBusy: "isBusy (snd (playClipBegin H c s)) = isBusy s"
proof -
  obtain r s1 where e: "ensureContext H s = (r, s1)"
    by (cases "ensureContext H s")
  have "isBusy s1 = isBusy s"
    using ensureContext_keeps [of H s] e by simp
  then show ?thesis
    using e by (simp add: playClipBegin_def stop_isBusy split: option.splits sum.splits)
qed

lemma playClipResume_inv:
  assumes "engineInv H s"
  shows "engineInv H (snd (playClipResume H c s))"
proof -
  have "engineInv H (s\<lparr>sourceRef := Some (buffer c)\<rparr>)"
    using assms by (rule engineInv_same) simp_all
  then have "engineInv H (startAnalyserLoop (s\<lparr>sourceRef := Some (buffer c)\<rparr>))"
    by (rule startAnalyserLoop_inv)
  then have "engineInv H ((startAnalyserLoop (s\<lparr>sourceRef := Some (buffer c)\<rparr>))\<lparr>lastClipRef := Some c\<rparr>)"
    by (rule engineInv_same) simp_all
  then show ?thesis
    using assms by (simp add: playClipResume_def Let_def split: option.splits)
qed

lemma idle_inv: "engineInv H s \<Longrightarrow> engineInv H (s\<lparr>isBusy := False\<rparr>)"
  by (erule engineInv_same) simp_all

lemma tryPlay_inv:
  assumes "engineInv H s"
  shows "engineInv H (snd (tryPlay H c s))"
proof -
  obtain p s' where b: "playClipBegin H c s = (p, s')"
    by (cases "playClipBegin H c s")
  have i: "engineInv H s'"
    using playClipBegin_inv [OF assms, of c] b by simp
  show ?thesis
    using b i idle_inv [OF i]
    by (simp add: tryPlay_def split: progress.splits sum.splits)
qed

lemma busy_inv:
  assumes "engineInv H s" and "hasWindow H" and "audioRef s \<noteq> None"
  shows "engineInv H (s\<lparr>isBusy := True\<rparr>)"
  using assms loopOwned_cong [of "s\<lparr>isBusy := True\<rparr>" s]
  by (simp add: engineInv_def contextReady_def)

lemma speakTextBegin_inv:
  assumes "engineInv H s"
  shows "engineInv H (snd (speakTextBegin H text emotion s))"
proof -
  obtain r s1 where e: "ensureContext H s = (r, s1)"
    by (cases "ensureContext H s")
  have i1: "engineInv H s1"
    using ensureContext_inv [OF assms] e by simp
  show ?thesis
  proof (cases r)
    case (Inl err)
    then show ?thesis using e i1 by (simp add: speakTextBegin_def)
  next
    case (Inr co)
    show ?thesis
    proof (cases co)
      case None
      then show ?thesis using e i1 Inr by (simp add: speakTextBegin_def)
    next
      case (Some c)
      have "hasWindow H \<and> audioRef s1 \<noteq> None"
        using ensureContext_ready [of H s c s1] e Inr Some by simp
      then have i2: "engineInv H (s1\<lparr>isBusy := True\<rparr>)"
        using i1 by (simp add: busy_inv)
      have "engineInv H ((s1\<lparr>isBusy := True\<rparr>)\<lparr>isBusy := False\<rparr>)"
        using i2 by (rule idle_inv)
      then show ?thesis
        using e Inr Some tryPlay_inv [OF i2]
        by (simp add: speakTextBegin_def Let_def split: sum.splits)
    qed
  qed
qed

lemma playFileBegin_inv:
  assumes "engineInv H s"
  shows "engineInv H (snd (playFileBegin H file emotion s))"
proof -
  obtain r s1 where e: "ensureContext H s = (r, s1)"
    by (cases "ensureContext H s")
  have i1: "engineInv H s1"
    using ensureContext_inv [OF assms] e by simp
  show ?thesis
  proof (cases r)
    case (Inl err)
    then show ?thesis using e i1 by (simp add: playFileBegin_def)
  next
    case (Inr co)
    show ?thesis
    proof (cases co)
      case None
      then show ?thesis using e i1 Inr by (simp add: playFileBegin_def)
    next
      case (Some c)
      have "hasWindow H \<and> audioRef s1 \<noteq> None"
        using ensureContext_ready [of H s c s1] e Inr Some by simp
      then have "engineInv H (s1\<lparr>isBusy := True\<rparr>)"
        using i1 by (simp add: busy_inv)
      then show ?thesis
        using e Inr Some by (simp add: playFileBegin_def)
    qed
  qed
qed

lemma replayBegin_inv: "engineInv H s \<Longrightarrow> engineInv H (snd (replayBegin H s))"
  using playClipBegin_inv [of H s]
  by (simp add: replayBegin_def split: option.splits)

lemma resumeTask_inv:
  assumes "engineInv H s"
  shows "engineInv H (snd (resumeTask H t s))"
proof (cases t)
  case (AwaitDecode bytes emotion)
  then show ?thesis
    using assms idle_inv [OF assms] by (simp split: sum.splits)
next
  case (AwaitRender g)
  then show ?thesis
    using tryPlay_inv [OF assms] by (simp add: Let_def)
next
  case (AwaitResume c resets)
  obtain r s' where p: "playClipResume H c s = (r, s')"
    by (cases "playClipResume H c s")
  have i: "engineInv H s'"
    using playClipResume_inv [OF assms, of c] p by simp
  show ?thesis
    using AwaitResume p i idle_inv [OF i] by simp
qed

lemma step_inv:
  assumes "engineInv H s"
  shows "engineInv H (snd (step H ev (ts, s)))"
proof (cases ev)
  case (CallSpeakText script emotion)
  then show ?thesis
    using speakTextBegin_inv [OF assms, of script emotion] by (simp add: split_beta)
next
  case (CallPlayFile bytes emotion)
  then show ?thesis
    using playFileBegin_inv [OF assms, of bytes emotion] by (simp add: split_beta)
next
  case CallReplay
  then show ?thesis
    using replayBegin_inv [OF assms] by (simp add: split_beta)
next
  case CallStop
  then show ?thesis using stop_inv [OF assms] by simp
next
  case (Frame data)
  then show ?thesis using animationFrame_inv [OF assms] by simp
next
  case Ended
  then show ?thesis using onended_inv [OF assms] by simp
next
  case (Settle i)
  then show ?thesis
    using assms resumeTask_inv [OF assms, of "ts ! i"] by (simp add: split_beta)
qed

lemma running_inv: "running H ts s \<Longrightarrow> engineInv H s"
proof (induction rule: running.induct)
  case run_init
  show ?case
    by (simp add: engineInv_def contextReady_def loopOwned_def initialEngine_def)
next
  case (run_step ts s ev ts' s')
  then show ?case
    using step_inv [of H s ev ts] by simp
qed

lemma running_runEvents:
  "running H ts s \<Longrightarrow>
     running H (fst (runEvents H evs (ts, s))) (snd (runEvents H evs (ts, s)))"
proof (induction evs arbitrary: ts s)
  case Nil
  then show ?case by simp
next
  case (Cons ev evs)
  obtain ts' s' where st: "step H ev (ts, s) = (ts', s')"
    by (cases "step H ev (ts, s)")
  have "running H ts' s'"
    using Cons.prems st by (rule run_step)
  then show ?case
    using Cons.IH [of ts' s'] st by simp
qed

text \<open>
  The segments agree with the whole calls: a call whose awaits settle with nothing
  interleaved ends with the result and in the state of \<open>playClip\<close>, \<open>speakText\<close> and
  \<open>playFile\<close>.
\<close>

lemma playClip_uninterrupted:
  "settleAll H 1 (playClipBegin H c s) = (Finished (fst (playClip H c s)), snd (playClip H c s))"
  by (auto simp: playClip_def playClipBegin_def playClipResume_def Let_def
           split: option.splits sum.splits prod.splits)

lemma speakText_uninterrupted:
  "settleAll H 1 (speakTextBegin H text emotion s) =
     (Finished (fst (speakText H text emotion s)), snd (speakText H text emotion s))"
  by (auto simp: speakText_def speakTextBegin_def guarded_def tryPlay_def
                 playClip_def playClipBegin_def playClipResume_def Let_def
           split: option.splits sum.splits prod.splits)

lemma playFile_uninterrupted:
  "settleAll H 3 (playFileBegin H file emotion s) =
     (Finished (fst (playFile H file emotion s)), snd (playFile H file emotion s))"
  by (auto simp: playFile_def playFileBegin_def guarded_def tryPlay_def
                 transformBufferWithEmotion_def numeral_3_eq_3
                 playClip_def playClipBegin_def playClipResume_def Let_def
           split: option.splits sum.splits prod.splits)

lemma running_owned: "running H ts s \<Longrightarrow> loopOwned s"
  using running_inv [of H ts s] by (simp add: engineInv_def)



lemma tiny_default_graph: "buildGraph tinyBuffer defaultProfile = Inr tinyGraph"
proof -
  have "\<lfloor>binary64 (real (bufLength tinyBuffer) / 1)\<rfloor> = 3"
    by (simp add: tinyBuffer_def binary64_3)
  then show ?thesis
    unfolding buildGraph_def Let_def tempo64_of_default
    by (simp add: tinyBuffer_def tinyGraph_def defaultProfile_def clamp_def)
qed

lemma tiny_rendered: "startRendering decodingHost tinyGraph = tinyBuffer"
  by (simp add: startRendering_def tinyGraph_def tinyBuffer_def decodingHost_def asciiHost_def
        numeral_3_eq_3)

lemma loud_sum: "sumSquares loudWindow 512 = 512"
  by (simp add: sumSquares_sum loudWindow_def)

lemma stopDuringDecode_run:
  "runEvents decodingHost [CallPlayFile [] defaultProfile, CallStop] ([], initialEngine) =
     ([AwaitDecode [] defaultProfile],
      initialEngine\<lparr>audioRef := Some \<lparr>ctxSampleRate = Some 44100\<rparr>,
                    analyserRef := Some \<lparr>fftSize = 1024, smoothingTimeConstant = 0.85\<rparr>,
                    gainRef := Some 0.95, isBusy := True, amplitudeLog := [0]\<rparr>) \<and>
   amplitudeLog (snd (runEvents decodingHost stopDuringDecode ([], initialEngine))) = [0, 0, 1]"
  unfolding stopDuringDecode_def
  using one_le_powr
  by (simp add: playFileBegin_def ensureContext_def decodingHost_def asciiHost_def
        initialEngine_def tiny_default_graph [unfolded decodingHost_def asciiHost_def]
        tiny_rendered [unfolded decodingHost_def asciiHost_def]
        tryPlay_def playClipBegin_def playClipResume_def
        stop_def cancelAnalyser_def onAmplitude_def
        startAnalyserLoop_def requestAnimationFrame_def frequencyBinCount_def
        animationFrame_def tick_log loud_sum clamp_def Let_def)

text \<open>
  Claim C7, as stated, fails in its last clause: \<^verbatim>\<open>stop\<close> does not cancel a call that is
  suspended at an \<^verbatim>\<open>await\<close>. When Stop is pressed while an upload is being decoded, the
  value 0 is reported; the upload then finishes decoding and rendering, \<^verbatim>\<open>playClip\<close> starts
  its source and the analyser loop, and the next frame reports a non-zero excitation, with no
  new request after the stop: the values reported are 0, 0 (the \<^verbatim>\<open>stop()\<close> inside
  \<^verbatim>\<open>playClip\<close>), 1.
\<close>

theorem stop_then_excitation_counterexample:
  "fst (runEvents decodingHost [CallPlayFile [] defaultProfile, CallStop] ([], initialEngine)) =
     [AwaitDecode [] defaultProfile] \<and>
   amplitudeLog (snd (runEvents decodingHost [CallPlayFile [] defaultProfile, CallStop]
                        ([], initialEngine))) = [0] \<and>
   amplitudeLog (snd (runEvents decodingHost
                        [CallPlayFile [] defaultProfile, CallStop, Settle 0, Settle 0, Settle 0,
                         Frame loudWindow]
                        ([], initialEngine))) = [0, 0, 1]"
  using stopDuringDecode_run unfolding stopDuringDecode_def
  by (simp del: runEvents.simps)

text \<open>
  Claim C7, amended. In every state the engine can be in, the states with calls suspended at
  an \<^verbatim>\<open>await\<close> included, \<^verbatim>\<open>stop\<close> (and likewise the \<^verbatim>\<open>ended\<close> handler of a source) cancels the
  pending frame callback and passes exactly one value, 0, to the amplitude callback, and
  the frames the host runs next report nothing. The calls that were suspended stay suspended:
  \<^verbatim>\<open>stop\<close> does not cancel a request in flight, which starts playback and the analyser loop
  when it resumes.
\<close>

theorem stop_emits_final_zero:
  assumes "running H ts s"
  shows "amplitudeLog (stop s) = amplitudeLog s @ [0] \<and>
         rafRef (stop s) = 0 \<and> frameQueue (stop s) = [] \<and>
         amplitudeLog (frames ws (stop s)) = amplitudeLog s @ [0] \<and>
         running H ts (stop s) \<and>
         amplitudeLog (onended s) = amplitudeLog s @ [0] \<and>
         rafRef (onended s) = 0 \<and> frameQueue (onended s) = [] \<and>
         amplitudeLog (frames ws (onended s)) = amplitudeLog s @ [0] \<and>
         running H ts (onended s)"
proof -
  have o: "loopOwned s" using assms by (rule running_owned)
  have "step H CallStop (ts, s) = (ts, stop s)" by simp
  with assms have r1: "running H ts (stop s)" by (rule run_step)
  have "step H Ended (ts, s) = (ts, onended s)" by simp
  with assms have r2: "running H ts (onended s)" by (rule run_step)
  show ?thesis
    using stop_effect [OF o] onended_effect [OF o] r1 r2
    by (simp add: frames_idle)
qed

lemma playingWithUpload_run:
  "fst (runEvents decodingHost playingWithUpload ([], initialEngine)) =
     [AwaitDecode [] defaultProfile] \<and>
   amplitudeLog (snd (runEvents decodingHost playingWithUpload ([], initialEngine))) = [0, 1] \<and>
   frameQueue (snd (runEvents decodingHost playingWithUpload ([], initialEngine))) = [(2, 512)]"
  unfolding playingWithUpload_def
  using one_le_powr
  by (simp add: playFileBegin_def ensureContext_def decodingHost_def asciiHost_def
        initialEngine_def tiny_default_graph [unfolded decodingHost_def asciiHost_def]
        tiny_rendered [unfolded decodingHost_def asciiHost_def]
        tryPlay_def playClipBegin_def playClipResume_def
        stop_def cancelAnalyser_def onAmplitude_def
        startAnalyserLoop_def requestAnimationFrame_def frequencyBinCount_def
        animationFrame_def tick_def sumSquares_sum loudWindow_def clamp_def Let_def)

theorem stop_emits_final_zero_witness:
  "running decodingHost [AwaitDecode [] defaultProfile]
     (snd (runEvents decodingHost playingWithUpload ([], initialEngine))) \<and>
   amplitudeLog (snd (runEvents decodingHost playingWithUpload ([], initialEngine))) = [0, 1] \<and>
   frameQueue (snd (runEvents decodingHost playingWithUpload ([], initialEngine))) \<noteq> [] \<and>
   amplitudeLog (frames [loudWindow, loudWindow]
      (stop (snd (runEvents decodingHost playingWithUpload ([], initialEngine))))) = [0, 1, 0] \<and>
   running decodingHost [AwaitDecode [] defaultProfile]
     (stop (snd (runEvents decodingHost playingWithUpload ([], initialEngine))))"
proof -
  let ?R = "runEvents decodingHost playingWithUpload ([], initialEngine)"
  have "running decodingHost (fst ?R) (snd ?R)"
    using running_runEvents [OF run_init] by simp
  then have r: "running decodingHost [AwaitDecode [] defaultProfile] (snd ?R)"
    using playingWithUpload_run by simp
  from stop_emits_final_zero [OF r, of "[loudWindow, loudWindow]"]
  show ?thesis using r playingWithUpload_run by simp
qed



section \<open>The write cursor and the bounds of the output array\<close>

lemma sampleLoop_length:
  "length (fst (sampleLoop H K vowel freq amplitude n cursor i st)) = length (fst st)"
proof (induction H K vowel freq amplitude n cursor i st rule: sampleLoop.induct)
  case (1 H K vowel freq amplitude n cursor i out k)
  show ?case
  proof (cases "i < n \<and> cursor + i < totalSamples K")
    case True
    then show ?thesis
      using 1 by (subst sampleLoop.simps) simp
  next
    case False
    then show ?thesis
      by (subst sampleLoop.simps) auto
  qed
qed

lemma sampleLoop_untouched:
  "j < cursor + i \<or> totalSamples K \<le> j \<Longrightarrow>
     fst (sampleLoop H K vowel freq amplitude n cursor i st) ! j = fst st ! j"
proof (induction H K vowel freq amplitude n cursor i st rule: sampleLoop.induct)
  case (1 H K vowel freq amplitude n cursor i out k)
  show ?case
  proof (cases "i < n \<and> cursor + i < totalSamples K")
    case True
    have "j \<noteq> cursor + i"
      using "1.prems" True by auto
    moreover have "j < cursor + (i + 1) \<or> totalSamples K \<le> j"
      using "1.prems" by auto
    ultimately show ?thesis
      using True "1.IH" by (subst sampleLoop.simps) simp
  next
    case False
    then show ?thesis
      by (subst sampleLoop.simps) auto
  qed
qed

lemma charLoop_cursor:
  "fst (snd (charLoop H K emotion chars st)) =
     fst (snd st) + length chars * charSamplesOf K"
proof (induction chars arbitrary: st)
  case Nil
  show ?case by simp
next
  case (Cons char chars)
  obtain out cursor k where st: "st = (out, cursor, k)"
    by (cases st)
  show ?case
    unfolding st by (simp add: Let_def split_beta Cons)
qed

lemma charLoop_length:
  "length (fst (charLoop H K emotion chars st)) = length (fst st)"
proof (induction chars arbitrary: st)
  case Nil
  show ?case by simp
next
  case (Cons char chars)
  obtain out cursor k where st: "st = (out, cursor, k)"
    by (cases st)
  show ?case
    unfolding st by (simp add: Let_def split_beta Cons sampleLoop_length)
qed

lemma charLoop_untouched:
  "j < fst (snd st) \<or> totalSamples K \<le> j \<Longrightarrow>
     fst (charLoop H K emotion chars st) ! j = fst st ! j"
proof (induction chars arbitrary: st)
  case Nil
  show ?case by simp
next
  case (Cons char chars)
  obtain out cursor k where st: "st = (out, cursor, k)"
    by (cases st)
  have j: "j < cursor + 0 \<or> totalSamples K \<le> j"
    using Cons.prems st by simp
  have "j < cursor + charSamplesOf K \<or> totalSamples K \<le> j"
    using j by auto
  then show ?case
    unfolding st using sampleLoop_untouched [OF j]
    by (simp add: Let_def split_beta Cons.IH)
qed

lemma wordLoop_cursor:
  "fst (snd (wordLoop H K emotion ws st)) =
     fst (snd st) + (\<Sum>w\<leftarrow>ws. length (codePoints w) * charSamplesOf K + wordGapOf K)"
proof (induction ws arbitrary: st)
  case Nil
  show ?case by simp
next
  case (Cons w ws)
  show ?case
    by (simp add: Let_def split_beta Cons charLoop_cursor)
qed

lemma wordLoop_length:
  "length (fst (wordLoop H K emotion ws st)) = length (fst st)"
proof (induction ws arbitrary: st)
  case Nil
  show ?case by simp
next
  case (Cons w ws)
  show ?case
    by (simp add: Let_def split_beta Cons charLoop_length)
qed

lemma wordLoop_untouched:
  "j < fst (snd st) \<or> totalSamples K \<le> j \<Longrightarrow>
     fst (wordLoop H K emotion ws st) ! j = fst st ! j"
proof (induction ws arbitrary: st)
  case Nil
  show ?case by simp
next
  case (Cons w ws)
  let ?st' = "charLoop H K emotion (codePoints w) st"
  have "j < fst (snd ?st') + wordGapOf K \<or> totalSamples K \<le> j"
    using Cons.prems by (auto simp: charLoop_cursor)
  then show ?case
    using Cons.prems by (simp add: Let_def split_beta Cons.IH charLoop_untouched)
qed

lemma hiConsts_samples: "charSamplesOf hiConsts = 6174 \<and> wordGapOf hiConsts = 3704"
  by (simp add: hiConsts_def synthConsts_def charSamplesOf_def wordGapOf_def
        BASE_CHAR_DURATION_def defaultProfile_def clamp_def)

text \<open>
  Claim C9, as stated, fails: the gap is added once per word, after the inner loop over the
  word's characters, not after each character. With the default profile at 44100 Hz a
  character takes 6174 samples and the gap is 3704 samples; after the character "H" the
  cursor is at 6174 (no gap), and after the word "Hi" it is at 2 * 6174 + 3704 = 16052, not
  at 2 * (6174 + 3704) = 19756.
\<close>

theorem gap_per_character_counterexample:
  "fst (snd (charLoop asciiHost hiConsts defaultProfile (codePoints (utf16 ''H''))
               (replicate 24696 0, 0, 0))) = 6174 \<and>
   fst (snd (wordLoop asciiHost hiConsts defaultProfile (splitOn 32 (utf16 ''Hi''))
               (replicate 24696 0, 0, 0))) = 16052 \<and>
   charSamplesOf hiConsts = 6174 \<and> wordGapOf hiConsts = 3704"
  by (simp only: wordLoop_cursor charLoop_cursor) (simp add: hiConsts_samples utf16_def)

text \<open>
  Claim C9, amended. During synthesis the write cursor advances by
  \<open>floor (charDuration * sampleRate)\<close> for each character and, after each word, by a further
  \<open>floor (charDuration * sampleRate * 0.6)\<close>; the output array keeps its length, and positions
  at or beyond \<open>totalSamples\<close>, like positions before the starting cursor, are not written
  (no wraparound).
\<close>

theorem wordLoop_cursor_and_bounds:
  "fst (snd (wordLoop H K emotion ws (out, cursor, k))) =
     cursor + (\<Sum>w\<leftarrow>ws. length (codePoints w) * charSamplesOf K + wordGapOf K) \<and>
   length (fst (wordLoop H K emotion ws (out, cursor, k))) = length out \<and>
   (\<forall>j. j < cursor \<or> totalSamples K \<le> j \<longrightarrow>
        fst (wordLoop H K emotion ws (out, cursor, k)) ! j = out ! j)"
  using wordLoop_untouched [of _ "(out, cursor, k)" K H emotion ws]
  by (simp add: wordLoop_cursor wordLoop_length)

theorem wordLoop_cursor_and_bounds_witness:
  "fst (snd (wordLoop asciiHost hiConsts defaultProfile [utf16 ''Hi'']
               (replicate 24696 0, 20000, 0))) = 36052 \<and>
   length (fst (wordLoop asciiHost hiConsts defaultProfile [utf16 ''Hi'']
               (replicate 24696 0, 20000, 0))) = 24696 \<and>
   fst (wordLoop asciiHost hiConsts defaultProfile [utf16 ''Hi'']
               (replicate 24696 0, 20000, 0)) ! 100 = 0"
proof -
  have "(\<Sum>w\<leftarrow>[utf16 ''Hi'']. length (codePoints w) * charSamplesOf hiConsts + wordGapOf hiConsts)
          = 16052"
    by (simp add: hiConsts_samples utf16_def)
  with wordLoop_cursor_and_bounds
         [of asciiHost hiConsts defaultProfile "[utf16 ''Hi'']" "replicate 24696 0" 20000 0]
  show ?thesis by simp
qed

section \<open>Where the profile is clamped\<close>

text \<open>
  Claim C8, as stated, fails: the synthesizer uses \<open>pitchShift\<close> as given. For the vowel "a"
  and a profile with pitch shift 20, the frequency is \<open>210 * 2 powr (20 / 12)\<close>, not the
  \<open>210 * 2 powr (6 / 12)\<close> of the profile clamped to the documented ranges.
\<close>

theorem pitch_unclamped_counterexample:
  "charFreq outOfRangeProfile [97] = 210 * 2 powr (20 / 12) \<and>
   charFreq (clampToDocumentedRanges outOfRangeProfile) [97] = 210 * 2 powr (6 / 12) \<and>
   charFreq outOfRangeProfile [97] \<noteq> charFreq (clampToDocumentedRanges outOfRangeProfile) [97]"
proof -
  have "(2::real) powr (5 / 3) \<noteq> 2 powr (1 / 2)"
    by (simp add: powr_inj)
  then show ?thesis
    by (simp add: charFreq_def baseFreq_def isVowel_def VOWEL_FREQ_def outOfRangeProfile_def
          clampToDocumentedRanges_def clamp_def)
qed

lemma clamp_idem: "mn \<le> mx \<Longrightarrow> clamp (clamp v mn mx) mn mx = clamp v mn mx"
  by (simp add: clamp_def)

lemma charLoop_tempo:
  "charLoop H K (emotion\<lparr>tempoMultiplier := x\<rparr>) chars st = charLoop H K emotion chars st"
proof (induction chars arbitrary: st)
  case Nil
  show ?case by simp
next
  case (Cons char chars)
  obtain out cursor k where st: "st = (out, cursor, k)"
    by (cases st)
  show ?case
    unfolding st by (simp add: Let_def split_beta Cons charFreq_def charAmplitude_def)
qed

lemma wordLoop_tempo:
  "wordLoop H K (emotion\<lparr>tempoMultiplier := x\<rparr>) ws st = wordLoop H K emotion ws st"
  by (induction ws arbitrary: st) (simp_all add: Let_def split_beta charLoop_tempo)

lemma synthConsts_tempo:
  "x = clamp (tempoMultiplier emotion) 0.65 1.45 \<Longrightarrow>
     synthConsts (emotion\<lparr>tempoMultiplier := x\<rparr>) rate n = synthConsts emotion rate n"
  by (simp add: synthConsts_def clamp_idem)

lemma synthesiseText_tempo:
  "synthesiseText H context text
     (emotion\<lparr>tempoMultiplier := clamp (tempoMultiplier emotion) 0.65 1.45\<rparr>) =
   synthesiseText H context text emotion"
  by (simp add: synthesiseText_def Let_def synthConsts_tempo wordLoop_tempo clamp_idem
           split: sum.splits)

lemma tempo64_preclamped:
  "clamp (clamp v 0.65 1.45) (binary64 0.65) (binary64 1.45) =
     clamp v (binary64 0.65) (binary64 1.45)"
  unfolding binary64_065 binary64_145 by (simp add: clamp_def min_def max_def)

lemma buildGraph_tempo:
  assumes "x = clamp (tempoMultiplier emotion) 0.65 1.45"
  shows "buildGraph decoded (emotion\<lparr>tempoMultiplier := x\<rparr>) = buildGraph decoded emotion"
proof -
  have "clamp (tempoMultiplier (emotion\<lparr>tempoMultiplier := x\<rparr>)) (binary64 0.65) (binary64 1.45)
          = clamp (tempoMultiplier emotion) (binary64 0.65) (binary64 1.45)"
    using assms tempo64_preclamped [of "tempoMultiplier emotion"] by simp
  then show ?thesis
    unfolding buildGraph_def Let_def by simp
qed

lemma transform_tempo:
  "transformBufferWithEmotion H file
     (emotion\<lparr>tempoMultiplier := clamp (tempoMultiplier emotion) 0.65 1.45\<rparr>) =
   transformBufferWithEmotion H file emotion"
  by (simp add: transformBufferWithEmotion_def buildGraph_tempo split: sum.splits)

lemma variant_in_ranges: "inDocumentedRanges (createVariantEmotion H preset)"
  by (simp add: inDocumentedRanges_def createVariantEmotion_def Let_def clamp_def min_def max_def)

lemma derived_bounds:
  "0.1 \<le> brightness (synthConsts emotion rate n) \<and> brightness (synthConsts emotion rate n) \<le> 1.2 \<and>
   0.12 \<le> consonantNoise (synthConsts emotion rate n) \<and>
   consonantNoise (synthConsts emotion rate n) \<le> 0.45 \<and>
   0.05 \<le> charAmplitude emotion lower \<and> charAmplitude emotion lower \<le> 0.98"
  by (simp add: synthConsts_def charAmplitude_def clamp_def min_def max_def)

text \<open>
  Claim C8, amended. \<^verbatim>\<open>createVariantEmotion\<close> returns a profile whose five numeric fields lie
  in the documented ranges, whatever the preset and the random draws. The synthesizer and the
  transformer clamp \<open>tempoMultiplier\<close> to \<open>[0.65, 1.45]\<close> before use: clamping it beforehand
  changes neither result. The synthesizer does not clamp the other fields; it bounds the
  quantities it derives from them: brightness to \<open>[0.1, 1.2]\<close>, consonant noise to
  \<open>[0.12, 0.45]\<close> and amplitude to \<open>[0.05, 0.98]\<close>.
\<close>

theorem clamping_by_design:
  "inDocumentedRanges (createVariantEmotion H preset) \<and>
   synthesiseText H context text
     (emotion\<lparr>tempoMultiplier := clamp (tempoMultiplier emotion) 0.65 1.45\<rparr>) =
     synthesiseText H context text emotion \<and>
   transformBufferWithEmotion H file
     (emotion\<lparr>tempoMultiplier := clamp (tempoMultiplier emotion) 0.65 1.45\<rparr>) =
     transformBufferWithEmotion H file emotion \<and>
   0.1 \<le> brightness (synthConsts emotion rate n) \<and> brightness (synthConsts emotion rate n) \<le> 1.2 \<and>
   0.12 \<le> consonantNoise (synthConsts emotion rate n) \<and>
   consonantNoise (synthConsts emotion rate n) \<le> 0.45 \<and>
   0.05 \<le> charAmplitude emotion lower \<and> charAmplitude emotion lower \<le> 0.98"
  using variant_in_ranges synthesiseText_tempo transform_tempo derived_bounds
  by blast

theorem clamping_by_design_witness:
  "inDocumentedRanges (createVariantEmotion asciiHost outOfRangeProfile) \<and>
   tempoMultiplier (createVariantEmotion asciiHost outOfRangeProfile) = 1.45 \<and>
   pitchShift (createVariantEmotion asciiHost outOfRangeProfile) = 6 \<and>
   synthesiseText asciiHost \<lparr>ctxSampleRate = Some 44100\<rparr> (utf16 ''Hi there.'')
     (outOfRangeProfile\<lparr>tempoMultiplier := 1.45\<rparr>) =
     synthesiseText asciiHost \<lparr>ctxSampleRate = Some 44100\<rparr> (utf16 ''Hi there.'') outOfRangeProfile"
proof -
  have c: "clamp (tempoMultiplier outOfRangeProfile) 0.65 1.45 = 1.45"
    by (simp add: outOfRangeProfile_def clamp_def)
  have v: "tempoMultiplier (createVariantEmotion asciiHost outOfRangeProfile) = 1.45 \<and>
           pitchShift (createVariantEmotion asciiHost outOfRangeProfile) = 6"
    by (simp add: createVariantEmotion_def asciiHost_def outOfRangeProfile_def jitter_def
          clamp_def Let_def)
  from clamping_by_design [of asciiHost outOfRangeProfile "\<lparr>ctxSampleRate = Some 44100\<rparr>"
        "utf16 ''Hi there.''" outOfRangeProfile "[]" 44100 0 "[97]"]
  show ?thesis
    unfolding c using v by simp
qed


end
